theory Spec2Isabelle
  imports Main "HOL-Library.Sublist"
begin

section \<open>The gazette item pipeline (gazette/pipelines.py)\<close>

text \<open>
  A shallow embedding of the four pipeline stages of \<^verbatim>\<open>gazette/pipelines.py\<close>:
  \<^verbatim>\<open>GazetteDateFilteringPipeline\<close>, \<^verbatim>\<open>DefaultValuesPipeline\<close>,
  \<^verbatim>\<open>QueridoDiarioFilesPipeline\<close> with its store \<^verbatim>\<open>QueridoDiarioFSFilesStore\<close>,
  and \<^verbatim>\<open>SQLDatabasePipeline\<close>.  Exceptions are values of \<open>py_error\<close>; a method
  that may raise returns \<open>py_error + 'a\<close>.  Mutable objects (the database, the spider's
  logger, the files on disk) are passed in and returned.
\<close>

subsection \<open>Exceptions\<close>

datatype py_error =
    DropItem string
  | AttributeError
  | KeyError
  | TypeError
  | ValueError
  | OSError

subsection \<open>datetime.date and datetime.datetime\<close>

text \<open>
  \<^verbatim>\<open>datetime.datetime\<close> is a subclass of \<^verbatim>\<open>datetime.date\<close>; the record extension
  follows it.  Python only builds objects with year 1..9999, a month 1..12, a day that
  exists in the month, hour < 24, minute < 60, second < 60 and microsecond < 1000000:
  \<open>valid_date\<close> and \<open>valid_datetime\<close> say so.
\<close>

record pydate =
  year :: nat
  month :: nat
  day :: nat

record pydatetime = pydate +
  hour :: nat
  minute :: nat
  second :: nat
  microsecond :: nat

definition is_leap :: "nat \<Rightarrow> bool" where
  "is_leap y = (y mod 4 = 0 \<and> (y mod 100 \<noteq> 0 \<or> y mod 400 = 0))"

definition days_in_month :: "nat \<Rightarrow> nat \<Rightarrow> nat" where
  "days_in_month y m =
     (if m = 2 then (if is_leap y then 29 else 28)
      else if m = 4 \<or> m = 6 \<or> m = 9 \<or> m = 11 then 30 else 31)"

definition valid_ymd :: "nat \<Rightarrow> nat \<Rightarrow> nat \<Rightarrow> bool" where
  "valid_ymd y m d =
     (1 \<le> y \<and> y \<le> 9999 \<and> 1 \<le> m \<and> m \<le> 12 \<and> 1 \<le> d \<and> d \<le> days_in_month y m)"

definition valid_date :: "'a pydate_scheme \<Rightarrow> bool" where
  "valid_date d = valid_ymd (year d) (month d) (day d)"

definition valid_datetime :: "pydatetime \<Rightarrow> bool" where
  "valid_datetime t =
     (valid_date t \<and> hour t < 24 \<and> minute t < 60 \<and> second t < 60 \<and> microsecond t < 1000000)"

text \<open>\<^verbatim>\<open>a > b\<close> on two dates compares (year, month, day) lexicographically.\<close>

definition date_gt :: "pydate \<Rightarrow> pydate \<Rightarrow> bool" where
  "date_gt a b =
     (year a > year b \<or> (year a = year b \<and>
       (month a > month b \<or> (month a = month b \<and> day a > day b))))"

subsection \<open>Decimal digits and zero padding\<close>

definition digit_char :: "nat \<Rightarrow> char" where
  "digit_char n = ''0123456789'' ! (n mod 10)"

definition digit_val :: "char \<Rightarrow> nat option" where
  "digit_val c = map_of (zip ''0123456789'' [0, 1, 2, 3, 4, 5, 6, 7, 8, 9]) c"

text \<open>
  \<open>zpad w n\<close> is \<^verbatim>\<open>"%0wd" % n\<close> for \<open>n < 10 ^ w\<close>, which is every field of a valid
  date or datetime at its width (4 for the year, 6 for the microsecond, 2 otherwise).
\<close>

fun zpad :: "nat \<Rightarrow> nat \<Rightarrow> string" where
  "zpad 0 n = []"
| "zpad (Suc w) n = zpad w (n div 10) @ [digit_char (n mod 10)]"

subsection \<open>isoformat\<close>

text \<open>
  \<^verbatim>\<open>str(date)\<close> is \<^verbatim>\<open>date.isoformat()\<close>: \<^verbatim>\<open>YYYY-MM-DD\<close>.
  \<^verbatim>\<open>datetime.isoformat("T")\<close> of a naive datetime (\<^verbatim>\<open>utcnow()\<close> has no tzinfo) is
  \<^verbatim>\<open>YYYY-MM-DDTHH:MM:SS\<close>, followed by \<^verbatim>\<open>.ffffff\<close> only when the microsecond is not 0.
\<close>

definition date_isoformat :: "'a pydate_scheme \<Rightarrow> string" where
  "date_isoformat d = zpad 4 (year d) @ ''-'' @ zpad 2 (month d) @ ''-'' @ zpad 2 (day d)"

definition datetime_isoformat :: "pydatetime \<Rightarrow> string" where
  "datetime_isoformat t =
     date_isoformat t @ ''T'' @ zpad 2 (hour t) @ '':'' @ zpad 2 (minute t) @ '':'' @
     zpad 2 (second t) @
     (if microsecond t = 0 then [] else ''.'' @ zpad 6 (microsecond t))"

subsection \<open>strptime\<close>

text \<open>
  \<^verbatim>\<open>datetime.strptime(s, fmt)\<close> turns the format into a regular expression, matches it
  at the start of \<open>s\<close> ignoring case, refuses a match that does not end at the end of
  \<open>s\<close>, and builds the datetime from the groups; every failure is a \<^verbatim>\<open>ValueError\<close>.
  A matcher returns the ways it can match a prefix, in the order the backtracking
  matcher tries them, each with the value read and the rest of the input.  The
  directives are those of the two formats of the source:
  \<^verbatim>\<open>
  %Y  \d\d\d\d                              %H  2[0-3]|[0-1]\d|\d
  %m  1[0-2]|0[1-9]|[1-9]                   %M  [0-5]\d|\d
  %d  3[0-1]|[1-2]\d|0[1-9]|[1-9]| [1-9]    %S  6[0-1]|[0-5]\d|\d
  %f  [0-9]{1,6}
  \<close>
  Only ASCII digits are read as digits.
\<close>

type_synonym 'a matcher = "string \<Rightarrow> ('a \<times> string) list"

definition cls :: "nat \<Rightarrow> nat \<Rightarrow> char \<Rightarrow> nat option" where
  "cls lo hi c =
     (case digit_val c of
        None \<Rightarrow> None
      | Some v \<Rightarrow> if lo \<le> v \<and> v \<le> hi then Some v else None)"

definition alt1 :: "nat \<Rightarrow> nat \<Rightarrow> nat matcher" where
  "alt1 lo hi s =
     (case s of
        c # r \<Rightarrow> (case cls lo hi c of Some a \<Rightarrow> [(a, r)] | None \<Rightarrow> [])
      | [] \<Rightarrow> [])"

definition alt2 :: "nat \<Rightarrow> nat \<Rightarrow> nat \<Rightarrow> nat \<Rightarrow> nat matcher" where
  "alt2 lo1 hi1 lo2 hi2 s =
     (case s of
        c1 # c2 # r \<Rightarrow>
          (case cls lo1 hi1 c1 of
             None \<Rightarrow> []
           | Some a \<Rightarrow> (case cls lo2 hi2 c2 of None \<Rightarrow> [] | Some b \<Rightarrow> [(10 * a + b, r)]))
      | _ \<Rightarrow> [])"

definition alt_space :: "nat matcher" where
  "alt_space s = (case s of c # r \<Rightarrow> (if c = CHR '' '' then alt1 1 9 r else []) | [] \<Rightarrow> [])"

definition re_Y :: "nat matcher" where
  "re_Y s =
     (case s of
        c1 # c2 # c3 # c4 # r \<Rightarrow>
          (case (digit_val c1, digit_val c2, digit_val c3, digit_val c4) of
             (Some a, Some b, Some c, Some d) \<Rightarrow> [(1000 * a + 100 * b + 10 * c + d, r)]
           | _ \<Rightarrow> [])
      | _ \<Rightarrow> [])"

definition re_m :: "nat matcher" where
  "re_m s = alt2 1 1 0 2 s @ alt2 0 0 1 9 s @ alt1 1 9 s"

definition re_d :: "nat matcher" where
  "re_d s = alt2 3 3 0 1 s @ alt2 1 2 0 9 s @ alt2 0 0 1 9 s @ alt1 1 9 s @ alt_space s"

definition re_H :: "nat matcher" where
  "re_H s = alt2 2 2 0 3 s @ alt2 0 1 0 9 s @ alt1 0 9 s"

definition re_M :: "nat matcher" where
  "re_M s = alt2 0 5 0 9 s @ alt1 0 9 s"

definition re_S :: "nat matcher" where
  "re_S s = alt2 6 6 0 1 s @ alt2 0 5 0 9 s @ alt1 0 9 s"

text \<open>
  \<open>digits_upto k s\<close>: the ways \<^verbatim>\<open>[0-9]{1,k}\<close> matches, longest first, each with the
  digits read (most significant first).
\<close>

fun digits_upto :: "nat \<Rightarrow> string \<Rightarrow> (nat list \<times> string) list" where
  "digits_upto 0 s = []"
| "digits_upto (Suc k) [] = []"
| "digits_upto (Suc k) (c # r) =
     (case digit_val c of
        None \<Rightarrow> []
      | Some v \<Rightarrow> map (\<lambda>(ds, r'). (v # ds, r')) (digits_upto k r) @ [([v], r)])"

text \<open>
  The digits of \<^verbatim>\<open>%f\<close> are padded with zeros on the right to six digits before
  \<^verbatim>\<open>int()\<close>: \<^verbatim>\<open>.5\<close> is 500000 microseconds.
\<close>

definition frac_value :: "nat list \<Rightarrow> nat" where
  "frac_value ds = foldl (\<lambda>acc v. 10 * acc + v) 0 (ds @ replicate (6 - length ds) 0)"

definition re_f :: "nat matcher" where
  "re_f s = map (\<lambda>(ds, r). (frac_value ds, r)) (digits_upto 6 s)"

text \<open>A literal character of the format, matched ignoring case.\<close>

definition lit :: "char \<Rightarrow> char \<Rightarrow> string \<Rightarrow> string list" where
  "lit lower upper s = (case s of c # r \<Rightarrow> (if c = lower \<or> c = upper then [r] else []) | [] \<Rightarrow> [])"

definition match_date :: "(nat \<times> nat \<times> nat) matcher" where
  "match_date s =
     [((y, m, d), r5).
        (y, r1) \<leftarrow> re_Y s, r2 \<leftarrow> lit CHR ''-'' CHR ''-'' r1,
        (m, r3) \<leftarrow> re_m r2, r4 \<leftarrow> lit CHR ''-'' CHR ''-'' r3,
        (d, r5) \<leftarrow> re_d r4]"

definition match_time :: "(nat \<times> nat \<times> nat \<times> nat) matcher" where
  "match_time s =
     [((h, mi, sec, f), r9).
        r1 \<leftarrow> lit CHR ''t'' CHR ''T'' s,
        (h, r2) \<leftarrow> re_H r1, r3 \<leftarrow> lit CHR '':'' CHR '':'' r2,
        (mi, r4) \<leftarrow> re_M r3, r5 \<leftarrow> lit CHR '':'' CHR '':'' r4,
        (sec, r6) \<leftarrow> re_S r5, r7 \<leftarrow> lit CHR ''.'' CHR ''.'' r6,
        (f, r8) \<leftarrow> re_f r7, r9 \<leftarrow> lit CHR ''z'' CHR ''Z'' r8]"

text \<open>\<^verbatim>\<open>datetime.strptime(s, "%Y-%m-%d").date()\<close>\<close>

definition strptime_date :: "string \<Rightarrow> py_error + pydate" where
  "strptime_date s =
     (case match_date s of
        [] \<Rightarrow> Inl ValueError
      | ((y, m, d), r) # _ \<Rightarrow>
          if r \<noteq> [] then Inl ValueError
          else if valid_ymd y m d then Inr \<lparr>year = y, month = m, day = d\<rparr>
          else Inl ValueError)"

text \<open>\<^verbatim>\<open>datetime.strptime(s, "%Y-%m-%dT%H:%M:%S.%fZ")\<close>\<close>

definition strptime_scraped_at :: "string \<Rightarrow> py_error + pydatetime" where
  "strptime_scraped_at s =
     (case [(ymd, hmsf, r2). (ymd, r1) \<leftarrow> match_date s, (hmsf, r2) \<leftarrow> match_time r1] of
        [] \<Rightarrow> Inl ValueError
      | ((y, m, d), (h, mi, sec, f), r) # _ \<Rightarrow>
          if r \<noteq> [] then Inl ValueError
          else if valid_ymd y m d \<and> sec \<le> 59
          then Inr \<lparr>year = y, month = m, day = d,
                    hour = h, minute = mi, second = sec, microsecond = f\<rparr>
          else Inl ValueError)"


subsection \<open>Items, file results and spiders\<close>

text \<open>
  An item is a dictionary of optional fields; \<open>None\<close> is a key that is not set, so
  \<^verbatim>\<open>item.get(k)\<close> is the field and \<^verbatim>\<open>item[k]\<close> raises \<^verbatim>\<open>KeyError\<close> on \<open>None\<close>.
  The \<^verbatim>\<open>date\<close> field holds a \<^verbatim>\<open>datetime.date\<close> when the spider yields the
  item and a string after \<^verbatim>\<open>DefaultValuesPipeline\<close>.  A file result is the
  dictionary the files pipeline appends to \<^verbatim>\<open>item["files"]\<close>.
\<close>

datatype date_field = DateObj pydate | DateStr string

record file_info =
  url :: string
  path :: string
  checksum :: string
  status :: string

record request =
  req_method :: string
  req_url :: string
  req_headers :: "(string \<times> string) list"

text \<open>
  An entry of \<^verbatim>\<open>item["file_requests"]\<close>: a request, or after \<^verbatim>\<open>item_completed\<close> the
  text \<^verbatim>\<open>METHOD url\<close> that replaces it.
\<close>

datatype request_field = Req request | ReqText string

record item =
  date :: "date_field option"
  territory_id :: "string option"
  scraped_at :: "string option"
  source_text :: "string option"
  edition_number :: "string option"
  is_extra_edition :: "bool option"
  power_f :: "string option"
  file_urls :: "string list option"
  file_requests :: "request_field list option"
  files :: "file_info list option"

text \<open>
  The spider attributes the pipelines read; \<open>None\<close> is an attribute the spider does
  not have (\<^verbatim>\<open>hasattr\<close> is false, \<^verbatim>\<open>getattr\<close> without a default raises).
\<close>

record spider =
  start_date :: "pydate option"
  TERRITORY_ID :: "string option"
  download_file_headers :: "(string \<times> string) list option"

subsection \<open>GazetteDateFilteringPipeline\<close>

text \<open>
  \<^verbatim>\<open>spider.start_date > item.get("date")\<close> is defined between two dates; against
  \<^verbatim>\<open>None\<close> or a string it raises \<^verbatim>\<open>TypeError\<close>.
\<close>

definition GazetteDateFilteringPipeline_process_item :: "item \<Rightarrow> spider \<Rightarrow> py_error + item" where
  "GazetteDateFilteringPipeline_process_item item spider =
     (case start_date spider of
        None \<Rightarrow> Inr item
      | Some sd \<Rightarrow>
          (case date item of
             Some (DateObj d) \<Rightarrow>
               if date_gt sd d
               then Inl (DropItem (''Droping all items before '' @ date_isoformat sd))
               else Inr item
           | _ \<Rightarrow> Inl TypeError))"

subsection \<open>DefaultValuesPipeline\<close>

fun py_str :: "date_field \<Rightarrow> string" where
  "py_str (DateObj d) = date_isoformat d"
| "py_str (DateStr s) = s"

text \<open>The first argument is the instant \<^verbatim>\<open>datetime.utcnow()\<close> returns.\<close>

definition DefaultValuesPipeline_process_item ::
  "pydatetime \<Rightarrow> item \<Rightarrow> spider \<Rightarrow> py_error + item" where
  "DefaultValuesPipeline_process_item now item spider =
     (case TERRITORY_ID spider of
        None \<Rightarrow> Inl AttributeError
      | Some tid \<Rightarrow>
          (case date item of
             None \<Rightarrow> Inl KeyError
           | Some v \<Rightarrow>
               Inr (item\<lparr>territory_id := Some tid,
                         date := Some (DateStr (py_str v)),
                         scraped_at := Some (datetime_isoformat now @ ''Z'')\<rparr>)))"

subsection \<open>SQLDatabasePipeline\<close>

text \<open>
  \<open>gazette_item\<close> is the dictionary \<^verbatim>\<open>process_item\<close> builds from the item,
  \<open>gazette_row\<close> the \<^verbatim>\<open>Gazette\<close> object made from it for one file.
\<close>

record gazette_item =
  g_source_text :: "string option"
  g_date :: pydate
  g_edition_number :: "string option"
  g_is_extra_edition :: "bool option"
  g_power :: "string option"
  g_scraped_at :: pydatetime
  g_territory_id :: "string option"

record gazette_row = gazette_item +
  g_file_path :: string
  g_file_url :: string
  g_file_checksum :: string

definition Gazette :: "gazette_item \<Rightarrow> file_info \<Rightarrow> gazette_row" where
  "Gazette gi file_info =
     \<lparr>g_source_text = g_source_text gi, g_date = g_date gi,
      g_edition_number = g_edition_number gi, g_is_extra_edition = g_is_extra_edition gi,
      g_power = g_power gi, g_scraped_at = g_scraped_at gi,
      g_territory_id = g_territory_id gi,
      g_file_path = path file_info, g_file_url = url file_info,
      g_file_checksum = checksum file_info\<rparr>"

text \<open>
  The database is the list of rows it holds.  Whether a commit succeeds is the
  database's decision (its constraints, its connection): \<open>db_commit\<close> gives, for the rows
  held and the rows pending in the session, \<open>None\<close> when the commit goes through and
  \<open>Some details\<close> when it raises \<^verbatim>\<open>SQLAlchemyError\<close>, \<open>details\<close> being the text of
  \<^verbatim>\<open>exc.args\<close>.
\<close>

type_synonym db_commit = "gazette_row list \<Rightarrow> gazette_row list \<Rightarrow> string option"

record session =
  committed :: "gazette_row list"
  pending :: "gazette_row list"
  warnings :: "string list"

definition warning_message :: "gazette_row \<Rightarrow> string \<Rightarrow> string" where
  "warning_message g details =
     ''Something wrong has happened when adding the gazette in the database. '' @
     ''Date: '' @ date_isoformat (g_date g) @ ''. '' @
     ''File Checksum: '' @ g_file_checksum g @ ''. '' @
     ''Details: '' @ details"

text \<open>
  One turn of the loop over \<^verbatim>\<open>item.get("files", [])\<close>: \<^verbatim>\<open>session.add\<close>, then
  \<^verbatim>\<open>session.commit()\<close>, and on \<^verbatim>\<open>SQLAlchemyError\<close> the warning and
  \<^verbatim>\<open>session.rollback()\<close>, which empties the session.
\<close>

definition persist_file :: "db_commit \<Rightarrow> gazette_item \<Rightarrow> session \<Rightarrow> file_info \<Rightarrow> session" where
  "persist_file C gi s file_info =
     (if status file_info = ''uptodate'' then s
      else
        let gazette = Gazette gi file_info;
            s1 = s\<lparr>pending := pending s @ [gazette]\<rparr>
        in (case C (committed s1) (pending s1) of
              None \<Rightarrow> s1\<lparr>committed := committed s1 @ pending s1, pending := []\<rparr>
            | Some details \<Rightarrow>
                s1\<lparr>warnings := warnings s1 @ [warning_message gazette details],
                   pending := []\<rparr>))"

definition persist_files :: "db_commit \<Rightarrow> gazette_item \<Rightarrow> session \<Rightarrow> file_info list \<Rightarrow> session" where
  "persist_files C gi s fs = foldl (persist_file C gi) s fs"

text \<open>
  The pipeline object with the database and the spider's logger it writes to.
  \<open>Session\<close> says that \<^verbatim>\<open>open_spider\<close> has initialised the database and bound the
  session factory.
\<close>

record sql_pipeline =
  database_url :: "string option"
  Session :: bool
  db_rows :: "gazette_row list"
  logged :: "string list"

definition open_spider :: "sql_pipeline \<Rightarrow> sql_pipeline" where
  "open_spider p = (if database_url p \<noteq> None then p\<lparr>Session := True\<rparr> else p)"

definition item_files :: "item \<Rightarrow> file_info list" where
  "item_files item = (case files item of None \<Rightarrow> [] | Some fs \<Rightarrow> fs)"

text \<open>
  The dictionary built from the item's fields, with the date and the scrape timestamp
  parsed.
\<close>

definition gazette_item_of :: "item \<Rightarrow> pydate \<Rightarrow> pydatetime \<Rightarrow> gazette_item" where
  "gazette_item_of item d t =
     \<lparr>g_source_text = source_text item, g_date = d,
      g_edition_number = edition_number item,
      g_is_extra_edition = is_extra_edition item,
      g_power = power_f item, g_scraped_at = t,
      g_territory_id = territory_id item\<rparr>"

definition SQLDatabasePipeline_process_item ::
  "db_commit \<Rightarrow> sql_pipeline \<Rightarrow> item \<Rightarrow> (py_error + item) \<times> sql_pipeline" where
  "SQLDatabasePipeline_process_item C p item =
     (if database_url p = None then (Inr item, p)
      else if \<not> Session p then (Inl AttributeError, p)
      else
        (case date item of
           Some (DateStr ds) \<Rightarrow>
             (case strptime_date ds of
                Inl e \<Rightarrow> (Inl e, p)
              | Inr d \<Rightarrow>
                  (case scraped_at item of
                     None \<Rightarrow> (Inl TypeError, p)
                   | Some ss \<Rightarrow>
                       (case strptime_scraped_at ss of
                          Inl e \<Rightarrow> (Inl e, p)
                        | Inr t \<Rightarrow>
                            let gi = gazette_item_of item d t;
                                s = persist_files C gi
                                      \<lparr>committed = db_rows p, pending = [], warnings = logged p\<rparr>
                                      (item_files item)
                            in (Inr item, p\<lparr>db_rows := committed s, logged := warnings s\<rparr>))))
         | _ \<Rightarrow> (Inl TypeError, p)))"


subsection \<open>pathlib\<close>

text \<open>
  A \<^verbatim>\<open>pathlib.Path\<close> on POSIX is a root (empty, \<^verbatim>\<open>/\<close> or \<^verbatim>\<open>//\<close>) and a list of
  parts.  Parsing a string splits it at \<^verbatim>\<open>/\<close> and drops the empty parts and the
  parts \<^verbatim>\<open>.\<close>; joining keeps the last argument that has a root and what follows it.
\<close>

record pure_path =
  root :: string
  parts :: "string list"

fun split_sep :: "char \<Rightarrow> string \<Rightarrow> string list" where
  "split_sep c [] = [[]]"
| "split_sep c (x # xs) =
     (if x = c then [] # split_sep c xs
      else (case split_sep c xs of [] \<Rightarrow> [[x]] | y # ys \<Rightarrow> (x # y) # ys))"

fun join_sep :: "string list \<Rightarrow> string" where
  "join_sep [] = []"
| "join_sep [x] = x"
| "join_sep (x # y # ys) = x @ ''/'' @ join_sep (y # ys)"

definition splitroot :: "string \<Rightarrow> string \<times> string" where
  "splitroot p =
     (case p of
        [] \<Rightarrow> ([], p)
      | c1 # p1 \<Rightarrow>
          if c1 \<noteq> CHR ''/'' then ([], p)
          else (case p1 of
                  [] \<Rightarrow> (''/'', p1)
                | c2 # p2 \<Rightarrow>
                    if c2 \<noteq> CHR ''/'' then (''/'', p1)
                    else (case p2 of
                            [] \<Rightarrow> (''//'', p2)
                          | c3 # p3 \<Rightarrow> if c3 = CHR ''/'' then (''/'', p1) else (''//'', p2))))"

definition kept_part :: "string \<Rightarrow> bool" where
  "kept_part x = (x \<noteq> [] \<and> x \<noteq> ''.'')"

text \<open>\<^verbatim>\<open>Path(s)\<close> for a string \<open>s\<close>.\<close>

definition parse_path :: "string \<Rightarrow> pure_path" where
  "parse_path s =
     (case splitroot s of
        (r, rel) \<Rightarrow> \<lparr>root = r, parts = filter kept_part (split_sep CHR ''/'' rel)\<rparr>)"

definition join_path :: "pure_path \<Rightarrow> pure_path \<Rightarrow> pure_path" where
  "join_path a b = (if root b \<noteq> [] then b else \<lparr>root = root a, parts = parts a @ parts b\<rparr>)"

text \<open>\<^verbatim>\<open>Path(a, b, ...)\<close>, each argument a path or a string already parsed.\<close>

definition Path :: "pure_path list \<Rightarrow> pure_path" where
  "Path args = foldl join_path \<lparr>root = [], parts = []\<rparr> args"

text \<open>\<^verbatim>\<open>str(p)\<close>\<close>

definition path_str :: "pure_path \<Rightarrow> string" where
  "path_str p = (if root p = [] \<and> parts p = [] then ''.'' else root p @ join_sep (parts p))"

text \<open>\<^verbatim>\<open>p.name\<close> and \<^verbatim>\<open>p.parent\<close>\<close>

definition path_name :: "pure_path \<Rightarrow> string" where
  "path_name p = (if parts p = [] then [] else last (parts p))"

definition path_parent :: "pure_path \<Rightarrow> pure_path" where
  "path_parent p = (if parts p = [] then p else p\<lparr>parts := butlast (parts p)\<rparr>)"

text \<open>\<^verbatim>\<open>s.rfind(c)\<close>, with \<open>None\<close> for -1.\<close>

fun rfind :: "char \<Rightarrow> string \<Rightarrow> nat option" where
  "rfind c [] = None"
| "rfind c (x # xs) =
     (case rfind c xs of
        Some i \<Rightarrow> Some (Suc i)
      | None \<Rightarrow> if x = c then Some 0 else None)"

text \<open>
  \<^verbatim>\<open>p.suffix\<close>: the name from its last dot on, when that dot is neither the first
  nor the last character of the name.
\<close>

definition path_suffix :: "pure_path \<Rightarrow> string" where
  "path_suffix p =
     (let name = path_name p
      in case rfind CHR ''.'' name of
           None \<Rightarrow> []
         | Some i \<Rightarrow> if 0 < i \<and> Suc i < length name then drop i name else [])"

text \<open>A string that is one part of a path: not empty, not \<^verbatim>\<open>.\<close>, without \<^verbatim>\<open>/\<close>.\<close>

definition plain_part :: "string \<Rightarrow> bool" where
  "plain_part x = (kept_part x \<and> CHR ''/'' \<notin> set x)"

subsection \<open>QueridoDiarioFilesPipeline\<close>

text \<open>
  A response as far as the pipeline reads it: the HTTP status, the flags the downloader
  set on it, and the body.
\<close>

record response =
  resp_status :: nat
  resp_flags :: "string list"
  body :: string

text \<open>
  \<^verbatim>\<open>filetype.guess\<close> is the signature table of the \<^verbatim>\<open>filetype\<close> library: it is a
  parameter, \<open>guess buf\<close> being the extension of the kind found or \<open>None\<close>.
\<close>

definition detect_extension :: "(string \<Rightarrow> string option) \<Rightarrow> response \<Rightarrow> string" where
  "detect_extension guess response =
     (let max_file_header_size = 261
      in case guess (take max_file_header_size (body response)) of
           None \<Rightarrow> []
         | Some extension \<Rightarrow> extension)"

text \<open>
  The name the file is stored under: the name of the path the base class gives
  (\<^verbatim>\<open>full/\<close> and the SHA-1 of the URL, then the URL's extension: a parameter), with the extension
  found in the content when that name has no suffix and there is a response.
\<close>

definition file_name ::
  "(request \<Rightarrow> string) \<Rightarrow> (string \<Rightarrow> string option) \<Rightarrow> request \<Rightarrow> response option \<Rightarrow> string" where
  "file_name default_file_path guess request response =
     (let filepath = parse_path (default_file_path request);
          filename = path_name filepath
      in case response of
           None \<Rightarrow> filename
         | Some r \<Rightarrow>
             if path_suffix filepath = [] then
               (let extension = detect_extension guess r
                in if extension \<noteq> [] then filename @ ''.'' @ extension else filename)
             else filename)"

text \<open>
  \<^verbatim>\<open>item["territory_id"]\<close> and \<^verbatim>\<open>item["date"]\<close> raise \<^verbatim>\<open>KeyError\<close> when not set, and
  \<^verbatim>\<open>Path\<close> raises \<^verbatim>\<open>TypeError\<close> on a date that is not a string.
\<close>

definition file_path ::
  "(request \<Rightarrow> string) \<Rightarrow> (string \<Rightarrow> string option) \<Rightarrow> request \<Rightarrow> response option \<Rightarrow>
   item \<Rightarrow> py_error + string" where
  "file_path default_file_path guess request response item =
     (let filename = file_name default_file_path guess request response
      in case territory_id item of
           None \<Rightarrow> Inl KeyError
         | Some t \<Rightarrow>
             (case date item of
                None \<Rightarrow> Inl KeyError
              | Some (DateObj d) \<Rightarrow> Inl TypeError
              | Some (DateStr d) \<Rightarrow>
                  Inr (path_str (Path [parse_path t, parse_path d, parse_path filename]))))"

subsection \<open>The files on disk\<close>

text \<open>
  The files on disk, each under its path, in the order a directory lists them.  The path
  of a file is absolute, or relative to the working directory, and holds no \<^verbatim>\<open>..\<close>.
  A directory is there when a file lies below it, and the root and the working directory
  always are.  Empty directories, symbolic links and permissions are not modelled.
\<close>

record file_node =
  mtime :: nat
  content :: string

type_synonym filesystem = "(pure_path \<times> file_node) list"

definition is_dir :: "filesystem \<Rightarrow> pure_path \<Rightarrow> bool" where
  "is_dir fs d =
     (list_all (\<lambda>x. x = ''..'') (parts d) \<or>
      list_ex (\<lambda>k. root k = root d \<and> strict_prefix (parts d) (parts k)) (map fst fs))"


text \<open>
  How the operating system follows the parts of a path from the root \<open>r\<close>: a part
  \<^verbatim>\<open>..\<close> leaves the directory reached so far, when \<open>ok\<close> lets it (the directory exists,
  for a call that reads; no file is in the way, for a write after the missing directories
  were made).  Above the root \<^verbatim>\<open>..\<close> stays at the root; above the working directory it
  is kept.
\<close>

fun walk ::
  "(pure_path \<Rightarrow> bool) \<Rightarrow> string \<Rightarrow> string list \<Rightarrow> string list \<Rightarrow> string list option" where
  "walk ok r cur [] = Some cur"
| "walk ok r cur (x # xs) =
     (if x \<noteq> ''..'' then walk ok r (cur @ [x]) xs
      else if list_all (\<lambda>y. y = ''..'') cur
        then walk ok r (if r = [] then cur @ [x] else []) xs
      else if ok \<lparr>root = r, parts = cur\<rparr> then walk ok r (butlast cur) xs
      else None)"

definition os_resolve :: "filesystem \<Rightarrow> pure_path \<Rightarrow> pure_path option" where
  "os_resolve fs p =
     map_option (\<lambda>q. \<lparr>root = root p, parts = q\<rparr>) (walk (is_dir fs) (root p) [] (parts p))"

datatype fs_entry = Regular file_node | Directory

text \<open>\<^verbatim>\<open>os.stat\<close>: what is at a path, \<open>None\<close> for \<^verbatim>\<open>OSError\<close>.\<close>

definition os_stat :: "filesystem \<Rightarrow> pure_path \<Rightarrow> fs_entry option" where
  "os_stat fs p =
     (case os_resolve fs p of
        None \<Rightarrow> None
      | Some q \<Rightarrow>
          (case map_of fs q of
             Some node \<Rightarrow> Some (Regular node)
           | None \<Rightarrow> if is_dir fs q then Some Directory else None))"

text \<open>
  \<^verbatim>\<open>os.scandir\<close>: the names of the entries of a directory, files and directories, each
  once, in listing order.
\<close>

definition scandir :: "filesystem \<Rightarrow> pure_path \<Rightarrow> string list" where
  "scandir fs d =
     rev (remdups (rev (map (\<lambda>k. parts k ! length (parts d))
       (filter (\<lambda>k. root k = root d \<and> strict_prefix (parts d) (parts k)) (map fst fs)))))"

fun write_file :: "filesystem \<Rightarrow> pure_path \<Rightarrow> file_node \<Rightarrow> filesystem" where
  "write_file [] p n = [(p, n)]"
| "write_file ((q, m) # fs) p n = (if q = p then (p, n) # fs else (q, m) # write_file fs p n)"


subsection \<open>fnmatch and glob\<close>

text \<open>
  \<^verbatim>\<open>fnmatch.translate\<close> turns a pattern into a regular expression: \<^verbatim>\<open>*\<close> any run
  of characters, \<^verbatim>\<open>?\<close> any one character, \<^verbatim>\<open>[seq]\<close> one character of a class and
  \<^verbatim>\<open>[!seq]\<close> one character not of it, anything else itself.  A class ends at the first
  \<^verbatim>\<open>]\<close> that is not its first character; a \<^verbatim>\<open>[\<close> with no such \<^verbatim>\<open>]\<close> is an
  ordinary character.  In a class \<^verbatim>\<open>a-b\<close> is the range from \<open>a\<close> to \<open>b\<close> by character
  code, empty when \<open>b\<close> comes before \<open>a\<close>.  Matching is case sensitive, as on POSIX.
\<close>

datatype re_item = Star | Any | Class bool "(char \<times> char) list" | Lit char

fun class_members :: "string \<Rightarrow> (char \<times> char) list" where
  "class_members [] = []"
| "class_members (a # rest) =
     (case rest of
        m # b # rest' \<Rightarrow>
          if m = CHR ''-'' then (a, b) # class_members rest' else (a, a) # class_members rest
      | _ \<Rightarrow> (a, a) # class_members rest)"

fun class_end :: "string \<Rightarrow> (string \<times> string) option" where
  "class_end [] = None"
| "class_end (c # cs) =
     (if c = CHR '']'' then Some ([], cs)
      else (case class_end cs of None \<Rightarrow> None | Some (a, b) \<Rightarrow> Some (c # a, b)))"

text \<open>
  The class that starts a pattern (the \<^verbatim>\<open>[\<close> already read): whether it is negated, its
  members, and the pattern after its \<^verbatim>\<open>]\<close>.
\<close>

definition parse_class :: "string \<Rightarrow> (bool \<times> string \<times> string) option" where
  "parse_class p =
     (let negated = (p \<noteq> [] \<and> hd p = CHR ''!'');
          p1 = (if negated then tl p else p)
      in case p1 of
           [] \<Rightarrow> None
         | c # cs \<Rightarrow>
             (case class_end cs of
                None \<Rightarrow> None
              | Some (stuff, rest) \<Rightarrow> Some (negated, c # stuff, rest)))"

function fnmatch_translate :: "string \<Rightarrow> re_item list" where
  "fnmatch_translate [] = []"
| "fnmatch_translate (c # pat) =
     (if c = CHR ''*'' then Star # fnmatch_translate pat
      else if c = CHR ''?'' then Any # fnmatch_translate pat
      else if c = CHR ''['' then
        (case parse_class pat of
           None \<Rightarrow> Lit c # fnmatch_translate pat
         | Some (negated, stuff, rest) \<Rightarrow>
             Class negated (class_members stuff) # fnmatch_translate rest)
      else Lit c # fnmatch_translate pat)"
  by pat_completeness auto

termination
proof (relation "measure length")
  show "wf (measure length)" by simp
next
  fix c :: char and pat x2 negated y stuff rest
  assume "parse_class pat = Some x2" and "(negated, y) = x2" and "(stuff, rest) = y"
  then have p: "parse_class pat = Some (negated, stuff, rest)" by simp
  have e: "class_end cs = Some (a, b) \<Longrightarrow> length b < Suc (length cs)" for cs a b
    by (induction cs arbitrary: a b) (auto split: if_splits option.splits)
  have "length rest < Suc (length pat)"
  proof (cases "pat \<noteq> [] \<and> hd pat = CHR ''!''")
    case True
    then obtain q where q: "pat = CHR ''!'' # q" by (cases pat) auto
    then obtain c1 cs where "q = c1 # cs" "class_end cs = Some (tl stuff, rest)"
      using p by (auto simp add: parse_class_def Let_def split: list.splits option.splits)
    then show ?thesis using e[of cs "tl stuff" rest] q by simp
  next
    case False
    then obtain c1 cs where "pat = c1 # cs" "class_end cs = Some (tl stuff, rest)"
      using p by (auto simp add: parse_class_def Let_def split: list.splits option.splits if_splits)
    then show ?thesis using e[of cs "tl stuff" rest] by simp
  qed
  then show "(rest, c # pat) \<in> measure length" by simp
qed simp_all

definition in_class :: "(char \<times> char) list \<Rightarrow> char \<Rightarrow> bool" where
  "in_class members c =
     list_ex (\<lambda>(a, b). (of_char a :: nat) \<le> of_char c \<and> (of_char c :: nat) \<le> of_char b) members"

fun re_fullmatch :: "re_item list \<Rightarrow> string \<Rightarrow> bool" where
  "re_fullmatch [] s = (s = [])"
| "re_fullmatch (Star # ts) [] = re_fullmatch ts []"
| "re_fullmatch (Star # ts) (c # s) = (re_fullmatch ts (c # s) \<or> re_fullmatch (Star # ts) s)"
| "re_fullmatch (t # ts) [] = False"
| "re_fullmatch (Any # ts) (c # s) = re_fullmatch ts s"
| "re_fullmatch (Class negated members # ts) (c # s) =
     (in_class members c \<noteq> negated \<and> re_fullmatch ts s)"
| "re_fullmatch (Lit a # ts) (c # s) = (c = a \<and> re_fullmatch ts s)"

definition fnmatch :: "string \<Rightarrow> string \<Rightarrow> bool" where
  "fnmatch name pat = re_fullmatch (fnmatch_translate pat) name"

fun contains :: "string \<Rightarrow> string \<Rightarrow> bool" where
  "contains sub [] = (sub = [])"
| "contains sub (c # s) = (prefix sub (c # s) \<or> contains sub s)"

text \<open>
  \<^verbatim>\<open>dir.glob(pattern)\<close> for a pattern of one part that holds a \<^verbatim>\<open>*\<close>: the entries of
  the directory whose name matches, in listing order, nothing when \<open>dir\<close> is no
  directory, and \<^verbatim>\<open>ValueError\<close> for a pattern with \<^verbatim>\<open>**\<close> inside a part.
\<close>

definition glob :: "filesystem \<Rightarrow> pure_path \<Rightarrow> string \<Rightarrow> py_error + pure_path list" where
  "glob fs dir pattern =
     (if contains ''**'' pattern then Inl ValueError
      else
        (case os_resolve fs dir of
           None \<Rightarrow> Inr []
         | Some d \<Rightarrow>
             Inr (map (\<lambda>n. dir\<lparr>parts := parts dir @ [n]\<rparr>)
                   (filter (\<lambda>n. fnmatch n pattern) (scandir fs d)))))"

subsection \<open>QueridoDiarioFSFilesStore\<close>

record file_stat =
  st_last_modified :: nat
  st_checksum :: string

text \<open>
  \<^verbatim>\<open>FSFilesStore.stat_file\<close> of the base class: nothing when \<^verbatim>\<open>stat()\<close> raises
  \<^verbatim>\<open>OSError\<close>, and otherwise the modification time and the MD5 of the content;
  opening a directory to read it raises.  \<open>md5sum\<close> is a parameter.
\<close>

definition get_filesystem_path :: "string \<Rightarrow> string \<Rightarrow> pure_path" where
  "get_filesystem_path basedir pth =
     Path (parse_path basedir # map parse_path (split_sep CHR ''/'' pth))"

definition FSFilesStore_stat_file ::
  "(string \<Rightarrow> string) \<Rightarrow> filesystem \<Rightarrow> string \<Rightarrow> string \<Rightarrow> py_error + file_stat option" where
  "FSFilesStore_stat_file md5sum fs basedir pth =
     (let absolute_path = get_filesystem_path basedir pth
      in case os_stat fs absolute_path of
           None \<Rightarrow> Inr None
         | Some Directory \<Rightarrow> Inl OSError
         | Some (Regular node) \<Rightarrow>
             Inr (Some \<lparr>st_last_modified = mtime node, st_checksum = md5sum (content node)\<rparr>))"


definition find_file :: "filesystem \<Rightarrow> string \<Rightarrow> pure_path \<Rightarrow> py_error + pure_path" where
  "find_file fs basedir pth =
     (let absolute_path = Path [parse_path basedir, pth]
      in case glob fs (path_parent absolute_path) (path_name pth @ ''.*'') of
           Inl e \<Rightarrow> Inl e
         | Inr found \<Rightarrow>
             Inr (case found of
                    f # _ \<Rightarrow> Path [path_parent pth, parse_path (path_name f)]
                  | [] \<Rightarrow> pth))"

definition stat_file ::
  "(string \<Rightarrow> string) \<Rightarrow> filesystem \<Rightarrow> string \<Rightarrow> string \<Rightarrow> py_error + file_stat option" where
  "stat_file md5sum fs basedir pth =
     (let path_obj = parse_path pth
      in if path_suffix path_obj \<noteq> [] then FSFilesStore_stat_file md5sum fs basedir pth
         else
           (case find_file fs basedir path_obj of
              Inl e \<Rightarrow> Inl e
            | Inr path_with_ext \<Rightarrow>
                FSFilesStore_stat_file md5sum fs basedir (path_str path_with_ext)))"

subsection \<open>The files pipeline on one item\<close>

text \<open>
  The rest of the run is the base class \<^verbatim>\<open>scrapy.pipelines.files.FilesPipeline\<close>
  (Scrapy 2.8), which \<^verbatim>\<open>QueridoDiarioFilesPipeline\<close> extends without overriding it.
  What it needs from outside is in \<open>framework\<close>: the base class path of a request, the
  signature table, MD5, how a URL is made safe when a request is built
  (\<^verbatim>\<open>safe_url_string\<close>, \<^verbatim>\<open>escape_ajax\<close>), the fingerprint of a request, what a
  download answers (\<open>None\<close> when it fails), the order in which the downloads of an item
  finish, the test \<^verbatim>\<open>age_days > self.expires\<close> on a modification time, and the time
  written on a new file.
\<close>















subsection \<open>Well-formed stores and how two runs compare\<close>

text \<open>A part of a stored path: one part that is not \<^verbatim>\<open>..\<close>.\<close>

definition stored_part :: "string \<Rightarrow> bool" where
  "stored_part x = (plain_part x \<and> x \<noteq> ''..'')"

text \<open>
  The files are under parsed paths, each path once; \<open>holds_only_files fs d\<close> says that
  what lies below the directory \<open>d\<close> lies directly in it; \<open>store_layout basedir fs\<close>
  says that the files are those a store under \<open>basedir\<close> holds, each at
  \<^verbatim>\<open>basedir/territory/date/name\<close> with a modification time.
\<close>

definition wf_filesystem :: "filesystem \<Rightarrow> bool" where
  "wf_filesystem fs =
     (distinct (map fst fs) \<and>
      list_all (\<lambda>(p, n). parts p \<noteq> [] \<and> list_all stored_part (parts p)) fs)"

definition holds_only_files :: "filesystem \<Rightarrow> pure_path \<Rightarrow> bool" where
  "holds_only_files fs d =
     list_all (\<lambda>k. root k = root d \<and> strict_prefix (parts d) (parts k) \<longrightarrow>
                 length (parts k) = Suc (length (parts d))) (map fst fs)"


text \<open>A name with none of the characters \<^verbatim>\<open>*\<close>, \<^verbatim>\<open>?\<close> and \<^verbatim>\<open>[\<close> of a pattern.\<close>

definition literal_name :: "string \<Rightarrow> bool" where
  "literal_name name =
     (CHR ''*'' \<notin> set name \<and> CHR ''?'' \<notin> set name \<and> CHR ''['' \<notin> set name)"













text \<open>The file results the loop does not skip, and how many an item has.\<close>

definition non_uptodate :: "file_info list \<Rightarrow> file_info list" where
  "non_uptodate fs = filter (\<lambda>f. status f \<noteq> ''uptodate'') fs"

definition non_uptodate_count :: "item \<Rightarrow> nat" where
  "non_uptodate_count item = length (non_uptodate (item_files item))"

definition rows_added :: "db_commit \<Rightarrow> sql_pipeline \<Rightarrow> item \<Rightarrow> nat" where
  "rows_added C p item =
     length (db_rows (snd (SQLDatabasePipeline_process_item C p item))) - length (db_rows p)"

definition warnings_added :: "db_commit \<Rightarrow> sql_pipeline \<Rightarrow> item \<Rightarrow> nat" where
  "warnings_added C p item =
     length (logged (snd (SQLDatabasePipeline_process_item C p item))) - length (logged p)"

subsection \<open>Sample data\<close>

text \<open>
  Two databases to run the pipeline against: one that accepts every row, and one with
  the uniqueness constraint on (territory, date, checksum), which refuses a row whose
  file another row of the same gazette already has.
\<close>

definition accepting_db :: db_commit where
  "accepting_db rows pend = None"

definition unique_checksum_db :: db_commit where
  "unique_checksum_db rows pend =
     (if \<exists>g \<in> set pend. \<exists>r \<in> set rows.
           g_territory_id g = g_territory_id r \<and> g_date g = g_date r \<and>
           g_file_checksum g = g_file_checksum r
      then Some ''(IntegrityError)'' else None)"

definition file_a :: file_info where
  "file_a = \<lparr>url = ''http://example.org/a'', path = ''X/2024-01-05/abc123.pdf'',
              checksum = ''c1'', status = ''downloaded''\<rparr>"

definition file_b :: file_info where
  "file_b = \<lparr>url = ''http://example.org/b'', path = ''X/2024-01-05/def456.pdf'',
              checksum = ''c2'', status = ''uptodate''\<rparr>"

definition file_c :: file_info where
  "file_c = \<lparr>url = ''http://example.org/c'', path = ''X/2024-01-05/0a1b2c.pdf'',
              checksum = ''c1'', status = ''downloaded''\<rparr>"

definition file_d :: file_info where
  "file_d = \<lparr>url = ''http://example.org/d'', path = ''X/2024-01-05/77e0f1.pdf'',
              checksum = ''c3'', status = ''downloaded''\<rparr>"

definition sample_files :: "file_info list" where
  "sample_files = [file_a, file_b, file_c, file_d]"

definition sample_item :: item where
  "sample_item =
     \<lparr>date = Some (DateStr ''2024-01-05''), territory_id = Some ''X'',
      scraped_at = Some ''2024-01-05T12:00:00.000123Z'', source_text = None,
      edition_number = Some ''12'', is_extra_edition = Some False,
      power_f = Some ''executive'',
      file_urls = Some [''http://example.org/a'', ''http://example.org/b'',
                        ''http://example.org/c'', ''http://example.org/d''],
      file_requests = None, files = Some sample_files\<rparr>"

definition sample_gazette_item :: gazette_item where
  "sample_gazette_item =
     \<lparr>g_source_text = None, g_date = \<lparr>year = 2024, month = 1, day = 5\<rparr>,
      g_edition_number = Some ''12'', g_is_extra_edition = Some False,
      g_power = Some ''executive'',
      g_scraped_at = \<lparr>year = 2024, month = 1, day = 5,
                      hour = 12, minute = 0, second = 0, microsecond = 123\<rparr>,
      g_territory_id = Some ''X''\<rparr>"

definition empty_session :: session where
  "empty_session = \<lparr>committed = [], pending = [], warnings = []\<rparr>"

definition sample_pipeline :: sql_pipeline where
  "sample_pipeline =
     \<lparr>database_url = Some ''postgresql://db'', Session = True, db_rows = [], logged = []\<rparr>"

definition raw_item :: item where
  "raw_item =
     \<lparr>date = Some (DateObj \<lparr>year = 2024, month = 1, day = 5\<rparr>), territory_id = None,
      scraped_at = None, source_text = None, edition_number = Some ''12'',
      is_extra_edition = Some False, power_f = Some ''executive'',
      file_urls = Some [''http://example.org/a''], file_requests = None, files = None\<rparr>"

definition no_database_pipeline :: sql_pipeline where
  "no_database_pipeline = \<lparr>database_url = None, Session = False, db_rows = [], logged = []\<rparr>"

definition early_spider :: spider where
  "early_spider =
     \<lparr>start_date = Some \<lparr>year = 2024, month = 1, day = 5\<rparr>, TERRITORY_ID = Some ''X'',
      download_file_headers = None\<rparr>"

definition late_spider :: spider where
  "late_spider =
     \<lparr>start_date = Some \<lparr>year = 2024, month = 2, day = 1\<rparr>, TERRITORY_ID = Some ''X'',
      download_file_headers = None\<rparr>"

definition plain_spider :: spider where
  "plain_spider = \<lparr>start_date = None, TERRITORY_ID = Some ''X'',
      download_file_headers = None\<rparr>"

definition whole_second :: pydatetime where
  "whole_second =
     \<lparr>year = 2024, month = 1, day = 5, hour = 12, minute = 0, second = 0, microsecond = 0\<rparr>"

definition later_instant :: pydatetime where
  "later_instant =
     \<lparr>year = 2024, month = 1, day = 5, hour = 12, minute = 0, second = 0, microsecond = 123\<rparr>"

text \<open>An item that carries no date.\<close>

definition undated_item :: item where
  "undated_item =
     \<lparr>date = None, territory_id = None,
      scraped_at = None, source_text = None, edition_number = Some ''12'',
      is_extra_edition = Some False, power_f = Some ''executive'',
      file_urls = Some [''http://example.org/a''], file_requests = None, files = None\<rparr>"

definition anonymous_spider :: spider where
  "anonymous_spider = \<lparr>start_date = None, TERRITORY_ID = None, download_file_headers = None\<rparr>"

text \<open>
  A signature table with one entry, PDF, and a base class path function for two
  requests: one whose URL gives no extension and one whose URL ends in \<^verbatim>\<open>.pdf\<close>.
\<close>

definition pdf_signature_guess :: "string \<Rightarrow> string option" where
  "pdf_signature_guess buf = (if take 4 buf = ''%PDF'' then Some ''pdf'' else None)"

definition sample_default_path :: "request \<Rightarrow> string" where
  "sample_default_path r =
     (if req_url r = ''http://example.org/a'' then ''full/abc123'' else ''full/def456.pdf'')"

definition request_a :: request where
  "request_a = \<lparr>req_method = ''GET'', req_url = ''http://example.org/a'', req_headers = []\<rparr>"

definition request_b :: request where
  "request_b = \<lparr>req_method = ''GET'', req_url = ''http://example.org/b.pdf'', req_headers = []\<rparr>"

definition pdf_response :: response where
  "pdf_response = \<lparr>resp_status = 200, resp_flags = [], body = ''%PDF-1.4 sample''\<rparr>"

definition unknown_response :: response where
  "unknown_response = \<lparr>resp_status = 200, resp_flags = [], body = ''no signature here''\<rparr>"

text \<open>
  A store under \<^verbatim>\<open>/data\<close> holding one file, downloaded earlier without an extension
  in its URL and stored as a PDF; a checksum function for the samples; and a framework
  around the sample signature table and base class paths, in which every download
  answers the PDF body and no file is expired.
\<close>

definition sample_md5 :: "string \<Rightarrow> string" where
  "sample_md5 s = ''md5 of '' @ s"

definition stored_pdf :: pure_path where
  "stored_pdf = \<lparr>root = ''/'', parts = [''data'', ''X'', ''2024-01-05'', ''abc123.pdf'']\<rparr>"

definition sample_fs :: filesystem where
  "sample_fs = [(stored_pdf, \<lparr>mtime = 100, content = ''%PDF-1.4 sample''\<rparr>)]"





section \<open>Properties\<close>

subsection \<open>Evaluating the parsers\<close>

lemmas strptime_defs =
  strptime_scraped_at_def strptime_date_def match_date_def match_time_def
  re_Y_def re_m_def re_d_def re_H_def re_M_def re_S_def re_f_def lit_def
  alt1_def alt2_def alt_space_def cls_def digit_val_def frac_value_def
  valid_ymd_def days_in_month_def is_leap_def

lemma digits_upto_numeral:
  "digits_upto (numeral k) [] = []"
  "digits_upto (numeral k) (c # r) =
     (case digit_val c of
        None \<Rightarrow> []
      | Some v \<Rightarrow> map (\<lambda>(ds, r'). (v # ds, r')) (digits_upto (pred_numeral k) r) @ [([v], r)])"
  by (simp_all add: numeral_eq_Suc)

lemma zpad_2: "zpad 2 n = [digit_char (n div 10 mod 10), digit_char (n mod 10)]"
  by (simp add: numeral_2_eq_2)

lemma nat4: "(4::nat) = Suc (Suc (Suc (Suc 0)))"
  by simp

lemma nat6: "(6::nat) = Suc (Suc (Suc (Suc (Suc (Suc 0)))))"
  by simp

lemma div_100: "(n::nat) div 10 div 10 = n div 100"
  by (simp add: div_mult2_eq[symmetric])

lemma zpad_4: "zpad 4 n = zpad 2 (n div 100) @ zpad 2 n"
  by (subst nat4) (simp add: zpad_2 div_100)

lemma zpad_6: "zpad 6 n = zpad 2 (n div 10000) @ zpad 2 (n div 100) @ zpad 2 n"
proof -
  have "(n div 100) div 100 = n div 10000" by (simp add: div_mult2_eq[symmetric])
  then have "zpad 4 (n div 100) = zpad 2 (n div 10000) @ zpad 2 (n div 100)"
    by (simp add: zpad_4)
  moreover have "zpad 6 n = zpad 4 (n div 100) @ zpad 2 n"
    by (subst nat6, subst nat4) (simp add: zpad_2 div_100)
  ultimately show ?thesis by simp
qed

lemma sample_date: "strptime_date ''2024-01-05'' = Inr \<lparr>year = 2024, month = 1, day = 5\<rparr>"
  by (simp add: strptime_defs)

lemma sample_scraped_at:
  "strptime_scraped_at ''2024-01-05T12:00:00.000123Z'' =
     Inr \<lparr>year = 2024, month = 1, day = 5,
          hour = 12, minute = 0, second = 0, microsecond = 123\<rparr>"
  by (simp add: strptime_defs digits_upto_numeral)

subsection \<open>The parsers on what isoformat writes\<close>

lemma digit_cases:
  assumes "(k::nat) < 10"
  obtains "k = 0" | "k = 1" | "k = 2" | "k = 3" | "k = 4" | "k = 5" | "k = 6" | "k = 7" | "k = 8" | "k = 9"
  using assms by atomize_elim arith

lemma digit_val_digit_char: "digit_val (digit_char n) = Some (n mod 10)"
proof -
  have "n mod 10 < 10" by simp
  then show ?thesis
    by (cases rule: digit_cases) (simp_all add: digit_char_def digit_val_def)
qed

lemma digit_char_neq: "digit_val c = None \<Longrightarrow> digit_char k \<noteq> c"
  using digit_val_digit_char[of k] by auto

lemma cls_digit_char:
  "cls lo hi (digit_char n) = (if lo \<le> n mod 10 \<and> n mod 10 \<le> hi then Some (n mod 10) else None)"
  by (simp add: cls_def digit_val_digit_char)

lemma two_digits: "n < 100 \<Longrightarrow> n div 10 mod 10 = n div 10" "10 * (n div 10) + n mod 10 = n"
  for n :: nat
  by simp_all

lemma alt2_zpad:
  "n < 100 \<Longrightarrow> alt2 a b c d (zpad 2 n @ r) =
     (if a \<le> n div 10 \<and> n div 10 \<le> b \<and> c \<le> n mod 10 \<and> n mod 10 \<le> d then [(n, r)] else [])"
  by (simp add: alt2_def zpad_2 cls_digit_char two_digits)

lemma alt1_zpad:
  "n < 100 \<Longrightarrow> alt1 a b (zpad 2 n @ r) =
     (if a \<le> n div 10 \<and> n div 10 \<le> b then [(n div 10, digit_char (n mod 10) # r)] else [])"
  by (simp add: alt1_def zpad_2 cls_digit_char two_digits)

lemma alt_space_zpad: "alt_space (zpad 2 n @ r) = []"
  by (simp add: alt_space_def zpad_2 digit_char_neq digit_val_def)

lemma re_m_zpad:
  assumes "1 \<le> m" "m \<le> 12"
  shows "re_m (zpad 2 m @ r) =
     (m, r) # (if 10 \<le> m then [(m div 10, digit_char (m mod 10) # r)] else [])"
proof -
  have lt: "m < 100" using assms by simp
  show ?thesis
  proof (cases "m < 10")
    case True
    then have "m div 10 = 0" "m mod 10 = m" by simp_all
    then show ?thesis using assms True by (simp add: re_m_def alt2_zpad[OF lt] alt1_zpad[OF lt])
  next
    case False
    then have "m div 10 = 1" "m mod 10 \<le> 2" using assms by simp_all arith
    then show ?thesis using assms False by (simp add: re_m_def alt2_zpad[OF lt] alt1_zpad[OF lt])
  qed
qed

lemma re_d_zpad:
  assumes "1 \<le> d" "d \<le> 31"
  shows "re_d (zpad 2 d @ r) =
     (d, r) # (if 10 \<le> d then [(d div 10, digit_char (d mod 10) # r)] else [])"
proof -
  have lt: "d < 100" using assms by simp
  consider "d < 10" | "10 \<le> d" "d < 30" | "30 \<le> d" by linarith
  then show ?thesis
  proof cases
    case 1
    then have "d div 10 = 0" "d mod 10 = d" by simp_all
    then show ?thesis using assms 1
      by (simp add: re_d_def alt2_zpad[OF lt] alt1_zpad[OF lt] alt_space_zpad)
  next
    case 2
    then have "d div 10 = 1 \<or> d div 10 = 2" by arith
    then show ?thesis using assms 2
      by (auto simp add: re_d_def alt2_zpad[OF lt] alt1_zpad[OF lt] alt_space_zpad)
  next
    case 3
    then have "d div 10 = 3" "d mod 10 \<le> 1" using assms by simp_all arith
    then show ?thesis using assms 3
      by (simp add: re_d_def alt2_zpad[OF lt] alt1_zpad[OF lt] alt_space_zpad)
  qed
qed

lemma re_H_zpad:
  assumes "h < 24"
  shows "re_H (zpad 2 h @ r) = [(h, r), (h div 10, digit_char (h mod 10) # r)]"
proof -
  have lt: "h < 100" using assms by simp
  show ?thesis
  proof (cases "h < 20")
    case True
    then have "h div 10 \<le> 1" by simp
    then show ?thesis using True by (simp add: re_H_def alt2_zpad[OF lt] alt1_zpad[OF lt])
  next
    case False
    then have "h div 10 = 2" "h mod 10 \<le> 3" using assms by simp_all arith
    then show ?thesis using False by (simp add: re_H_def alt2_zpad[OF lt] alt1_zpad[OF lt])
  qed
qed

lemma re_M_zpad:
  assumes "mi < 60"
  shows "re_M (zpad 2 mi @ r) = [(mi, r), (mi div 10, digit_char (mi mod 10) # r)]"
proof -
  have lt: "mi < 100" using assms by simp
  have "mi div 10 \<le> 5" using assms by simp
  then show ?thesis by (simp add: re_M_def alt2_zpad[OF lt] alt1_zpad[OF lt])
qed

lemma re_S_zpad:
  assumes "s < 60"
  shows "re_S (zpad 2 s @ r) = [(s, r), (s div 10, digit_char (s mod 10) # r)]"
proof -
  have lt: "s < 100" using assms by simp
  have "s div 10 \<le> 5" using assms by simp
  then show ?thesis by (simp add: re_S_def alt2_zpad[OF lt] alt1_zpad[OF lt])
qed

lemma four_digits:
  fixes y :: nat
  assumes "y < 10000"
  shows "1000 * (y div 100 div 10 mod 10) + 100 * (y div 100 mod 10) +
         10 * (y div 10 mod 10) + y mod 10 = y"
proof -
  define A B C D E F where "A = y div 10" and "B = y mod 10" and "C = y div 100"
    and "D = y div 10 mod 10" and "E = y div 100 div 10" and "F = y div 100 mod 10"
  have 1: "y = 10 * A + B" unfolding A_def B_def by simp
  have "y div 10 = 10 * (y div 10 div 10) + y div 10 mod 10" by simp
  then have 2: "A = 10 * C + D" unfolding A_def C_def D_def by (simp only: div_100)
  have 3: "C = 10 * E + F" unfolding C_def E_def F_def by simp
  have "y div 100 < 100" using assms by simp
  then have "y div 100 div 10 < 10" by simp
  then have 4: "y div 100 div 10 mod 10 = E" unfolding E_def by simp
  have "1000 * E + 100 * F + 10 * D + B = y" using 1 2 3 by linarith
  then show ?thesis unfolding 4 unfolding B_def D_def F_def .
qed

lemma re_Y_zpad:
  assumes "y < 10000"
  shows "re_Y (zpad 4 y @ r) = [(y, r)]"
proof -
  have "re_Y (zpad 4 y @ r) =
     [(1000 * (y div 100 div 10 mod 10) + 100 * (y div 100 mod 10) +
         10 * (y div 10 mod 10) + y mod 10, r)]"
    by (simp add: re_Y_def zpad_4 zpad_2 digit_val_digit_char)
  then show ?thesis by (simp only: four_digits[OF assms])
qed

lemma lit_same: "lit a b (a # r) = [r]" "lit a b (b # r) = [r]"
  by (simp_all add: lit_def)

lemma lit_digit_char:
  "digit_val a = None \<Longrightarrow> digit_val b = None \<Longrightarrow> lit a b (digit_char k # r) = []"
  by (simp add: lit_def digit_char_neq)

lemma not_digits:
  "digit_val CHR ''-'' = None" "digit_val CHR '':'' = None" "digit_val CHR ''.'' = None"
  "digit_val CHR ''T'' = None" "digit_val CHR ''t'' = None"
  "digit_val CHR ''Z'' = None" "digit_val CHR ''z'' = None"
  by (simp_all add: digit_val_def)

lemma match_date_isoformat:
  assumes "valid_ymd y m d"
  shows "match_date (zpad 4 y @ CHR ''-'' # zpad 2 m @ CHR ''-'' # zpad 2 d @ r) =
     ((y, m, d), r) # (if 10 \<le> d then [((y, m, d div 10), digit_char (d mod 10) # r)] else [])"
proof -
  have y: "y < 10000" and m: "1 \<le> m" "m \<le> 12" and d: "1 \<le> d" "d \<le> 31"
    using assms by (auto simp add: valid_ymd_def days_in_month_def split: if_splits)
  show ?thesis
    by (simp add: match_date_def re_Y_zpad[OF y] re_m_zpad[OF m] re_d_zpad[OF d]
        lit_same lit_digit_char not_digits)
qed

lemma six_digits:
  fixes u :: nat
  assumes "u < 1000000"
  shows "100000 * (u div 10000 div 10 mod 10) + 10000 * (u div 10000 mod 10) +
         1000 * (u div 100 div 10 mod 10) + 100 * (u div 100 mod 10) +
         10 * (u div 10 mod 10) + u mod 10 = u"
proof -
  define A B C D E F G H I J where "A = u div 10" and "B = u mod 10" and "C = u div 100"
    and "D = u div 10 mod 10" and "E = u div 100 div 10" and "F = u div 100 mod 10"
    and "G = u div 10000" and "H = u div 100 div 10 mod 10"
    and "I = u div 10000 div 10" and "J = u div 10000 mod 10"
  have 1: "u = 10 * A + B" unfolding A_def B_def by simp
  have "u div 10 = 10 * (u div 10 div 10) + u div 10 mod 10" by simp
  then have 2: "A = 10 * C + D" unfolding A_def C_def D_def by (simp only: div_100)
  have 3: "C = 10 * E + F" unfolding C_def E_def F_def by simp
  have "u div 100 div 10 div 10 = u div 100 div 100" by (rule div_100)
  also have "\<dots> = u div 10000" by (simp add: div_mult2_eq[symmetric])
  finally have e: "u div 100 div 10 div 10 = u div 10000" .
  have "u div 100 div 10 = 10 * (u div 100 div 10 div 10) + u div 100 div 10 mod 10" by simp
  then have 4: "E = 10 * G + H" unfolding E_def G_def H_def by (simp only: e)
  have 5: "G = 10 * I + J" unfolding G_def I_def J_def by simp
  have "u div 10000 < 100" using assms by simp
  then have "u div 10000 div 10 < 10" by simp
  then have 6: "u div 10000 div 10 mod 10 = I" unfolding I_def by simp
  have "100000 * I + 10000 * J + 1000 * H + 100 * F + 10 * D + B = u"
    using 1 2 3 4 5 by linarith
  then show ?thesis unfolding 6 unfolding B_def D_def F_def H_def J_def .
qed

lemma frac_value_6:
  "frac_value [a, b, c, d, e, f] =
     100000 * a + 10000 * b + 1000 * c + 100 * d + 10 * e + f"
  by (simp add: frac_value_def)

lemma digits_upto_6:
  "\<exists>t. digits_upto 6 (digit_char a # digit_char b # digit_char c # digit_char d #
                      digit_char e # digit_char f # r) =
        ([a mod 10, b mod 10, c mod 10, d mod 10, e mod 10, f mod 10], r) # t \<and>
       (\<forall>x \<in> set t. \<exists>k s. snd x = digit_char k # s)"
  by (auto simp add: digits_upto_numeral digit_val_digit_char)

lemma re_f_zpad:
  assumes "u < 1000000"
  shows "\<exists>t. re_f (zpad 6 u @ r) = (u, r) # t \<and> (\<forall>x \<in> set t. \<exists>k s. snd x = digit_char k # s)"
proof -
  obtain t where t: "digits_upto 6 (zpad 6 u @ r) =
      ([u div 10000 div 10 mod 10, u div 10000 mod 10, u div 100 div 10 mod 10,
        u div 100 mod 10, u div 10 mod 10, u mod 10], r) # t"
      "\<forall>x \<in> set t. \<exists>k s. snd x = digit_char k # s"
    using digits_upto_6[of "u div 10000 div 10 mod 10" "u div 10000 mod 10" "u div 100 div 10 mod 10"
        "u div 100 mod 10" "u div 10 mod 10" "u mod 10" r]
    by (auto simp add: zpad_6 zpad_2)
  have "re_f (zpad 6 u @ r) = (u, r) # map (\<lambda>(ds, r). (frac_value ds, r)) t"
    by (simp add: re_f_def t(1) frac_value_6 six_digits[OF assms])
  moreover have "\<forall>x \<in> set (map (\<lambda>(ds, r). (frac_value ds, r)) t). \<exists>k s. snd x = digit_char k # s"
    using t(2) by fastforce
  ultimately show ?thesis by blast
qed

lemma frac_then_Z:
  assumes "u < 1000000"
  shows "concat (map (\<lambda>(f, r8). map (g f) (lit CHR ''z'' CHR ''Z'' r8)) (re_f (zpad 6 u @ CHR ''Z'' # r))) =
         [g u r]"
proof -
  obtain t where t: "re_f (zpad 6 u @ CHR ''Z'' # r) = (u, CHR ''Z'' # r) # t"
      "\<forall>x \<in> set t. \<exists>k s. snd x = digit_char k # s"
    using re_f_zpad[OF assms] by blast
  have "concat (map (\<lambda>(f, r8). map (g f) (lit CHR ''z'' CHR ''Z'' r8)) t) = []"
    using t(2) by (auto simp add: lit_digit_char not_digits)
  then show ?thesis by (simp add: t(1) lit_same)
qed

lemma match_time_isoformat:
  assumes "h < 24" "mi < 60" "s < 60" "u < 1000000"
  shows "match_time (CHR ''T'' # zpad 2 h @ CHR '':'' # zpad 2 mi @ CHR '':'' # zpad 2 s @
           CHR ''.'' # zpad 6 u @ CHR ''Z'' # r) = [((h, mi, s, u), r)]"
  by (simp add: match_time_def re_H_zpad[OF assms(1)] re_M_zpad[OF assms(2)] re_S_zpad[OF assms(3)]
      frac_then_Z[OF assms(4)] lit_same lit_digit_char not_digits)

lemma match_time_no_fraction:
  assumes "h < 24" "mi < 60" "s < 60"
  shows "match_time (CHR ''T'' # zpad 2 h @ CHR '':'' # zpad 2 mi @ CHR '':'' # zpad 2 s @
           CHR ''Z'' # r) = []"
  by (simp add: match_time_def re_H_zpad[OF assms(1)] re_M_zpad[OF assms(2)] re_S_zpad[OF assms(3)]
      lit_same lit_digit_char not_digits)
     (simp add: lit_def)

subsection \<open>The loop of the metadata sink\<close>

lemma persist_files_Nil: "persist_files C gi s [] = s"
  by (simp add: persist_files_def)

lemma persist_files_Cons:
  "persist_files C gi s (f # fs) = persist_files C gi (persist_file C gi s f) fs"
  by (simp add: persist_files_def)

lemma persist_files_append:
  "persist_files C gi s (fs @ gs) = persist_files C gi (persist_files C gi s fs) gs"
  by (simp add: persist_files_def)

lemma persist_file_pending: "pending s = [] \<Longrightarrow> pending (persist_file C gi s f) = []"
  by (simp add: persist_file_def Let_def split: option.splits)

lemma persist_files_pending: "pending s = [] \<Longrightarrow> pending (persist_files C gi s fs) = []"
  by (induction fs arbitrary: s)
     (simp_all add: persist_files_Nil persist_files_Cons persist_file_pending)

lemma persist_file_uptodate: "status f = ''uptodate'' \<Longrightarrow> persist_file C gi s f = s"
  by (simp add: persist_file_def)

lemma persist_file_ok:
  "status f \<noteq> ''uptodate'' \<Longrightarrow> pending s = [] \<Longrightarrow> C (committed s) [Gazette gi f] = None \<Longrightarrow>
   persist_file C gi s f = s\<lparr>committed := committed s @ [Gazette gi f]\<rparr>"
  by (simp add: persist_file_def Let_def)

lemma persist_file_fail:
  "status f \<noteq> ''uptodate'' \<Longrightarrow> pending s = [] \<Longrightarrow>
   C (committed s) [Gazette gi f] = Some details \<Longrightarrow>
   persist_file C gi s f = s\<lparr>warnings := warnings s @ [warning_message (Gazette gi f) details]\<rparr>"
  by (simp add: persist_file_def Let_def)

lemma non_uptodate_Cons: "non_uptodate (f # fs) = non_uptodate [f] @ non_uptodate fs"
  by (simp add: non_uptodate_def)

lemma persist_file_count:
  "pending s = [] \<Longrightarrow>
   length (committed (persist_file C gi s f)) + length (warnings (persist_file C gi s f)) =
   length (committed s) + length (warnings s) + length (non_uptodate [f])"
  by (simp add: persist_file_def Let_def non_uptodate_def split: option.splits)

lemma persist_files_count:
  "pending s = [] \<Longrightarrow>
   length (committed (persist_files C gi s fs)) + length (warnings (persist_files C gi s fs)) =
   length (committed s) + length (warnings s) + length (non_uptodate fs)"
proof (induction fs arbitrary: s)
  case Nil
  then show ?case by (simp add: persist_files_Nil non_uptodate_def)
next
  case (Cons f fs)
  have p: "pending (persist_file C gi s f) = []"
    using Cons.prems by (rule persist_file_pending)
  show ?case
    using Cons.IH[OF p] persist_file_count[OF Cons.prems, of C gi f] non_uptodate_Cons[of f fs]
    by (simp add: persist_files_Cons)
qed

lemma persist_file_rows:
  "pending s = [] \<Longrightarrow>
   \<exists>added. committed (persist_file C gi s f) = committed s @ added \<and>
           subseq added (map (Gazette gi) (non_uptodate [f]))"
  by (auto simp add: persist_file_def Let_def non_uptodate_def split: option.splits)

lemma persist_files_rows:
  "pending s = [] \<Longrightarrow>
   \<exists>added. committed (persist_files C gi s fs) = committed s @ added \<and>
           subseq added (map (Gazette gi) (non_uptodate fs))"
proof (induction fs arbitrary: s)
  case Nil
  then show ?case by (simp add: persist_files_Nil non_uptodate_def)
next
  case (Cons f fs)
  have p: "pending (persist_file C gi s f) = []"
    using Cons.prems by (rule persist_file_pending)
  obtain a1 where a1: "committed (persist_file C gi s f) = committed s @ a1"
      "subseq a1 (map (Gazette gi) (non_uptodate [f]))"
    using persist_file_rows[OF Cons.prems] by blast
  obtain a2 where a2:
      "committed (persist_files C gi (persist_file C gi s f) fs) =
         committed (persist_file C gi s f) @ a2"
      "subseq a2 (map (Gazette gi) (non_uptodate fs))"
    using Cons.IH[OF p] by blast
  have "subseq (a1 @ a2) (map (Gazette gi) (non_uptodate (f # fs)))"
    using a1(2) a2(2) non_uptodate_Cons[of f fs] by (simp add: list_emb_append_mono)
  then show ?case using a1(1) a2(1) by (simp add: persist_files_Cons)
qed

lemma persist_files_all_ok:
  "(\<And>rows pend. C rows pend = None) \<Longrightarrow> pending s = [] \<Longrightarrow>
   persist_files C gi s fs = s\<lparr>committed := committed s @ map (Gazette gi) (non_uptodate fs)\<rparr>"
proof (induction fs arbitrary: s)
  case Nil
  then show ?case by (simp add: persist_files_Nil non_uptodate_def)
next
  case (Cons f fs)
  show ?case
  proof (cases "status f = ''uptodate''")
    case True
    then show ?thesis
      using Cons by (simp add: persist_files_Cons persist_file_uptodate non_uptodate_def)
  next
    case False
    then show ?thesis
      using Cons by (simp add: persist_files_Cons persist_file_ok non_uptodate_def)
  qed
qed

lemma persist_file_warnings_mono:
  "length (warnings s) \<le> length (warnings (persist_file C gi s f))"
  by (simp add: persist_file_def Let_def split: option.splits)

lemma persist_files_warnings_mono:
  "length (warnings s) \<le> length (warnings (persist_files C gi s fs))"
proof (induction fs arbitrary: s)
  case Nil
  show ?case by (simp add: persist_files_Nil)
next
  case (Cons f fs)
  show ?case
    using Cons.IH[of "persist_file C gi s f"] persist_file_warnings_mono[of s C gi f]
    by (simp add: persist_files_Cons)
qed

subsection \<open>The metadata sink on one item\<close>

lemma sql_process_item_run:
  assumes "database_url p \<noteq> None" "Session p" "date item = Some (DateStr ds)"
    "strptime_date ds = Inr d" "scraped_at item = Some ss" "strptime_scraped_at ss = Inr t"
  shows "SQLDatabasePipeline_process_item C p item =
     (Inr item,
      p\<lparr>db_rows := committed (persist_files C (gazette_item_of item d t)
                 \<lparr>committed = db_rows p, pending = [], warnings = logged p\<rparr> (item_files item)),
        logged := warnings (persist_files C (gazette_item_of item d t)
                 \<lparr>committed = db_rows p, pending = [], warnings = logged p\<rparr> (item_files item))\<rparr>)"
  using assms by (auto simp add: SQLDatabasePipeline_process_item_def Let_def)

lemma sql_process_item_Inr:
  assumes "fst (SQLDatabasePipeline_process_item C p item) = Inr item'"
    and "database_url p \<noteq> None"
  shows "\<exists>gi. snd (SQLDatabasePipeline_process_item C p item) =
      p\<lparr>db_rows := committed (persist_files C gi
                 \<lparr>committed = db_rows p, pending = [], warnings = logged p\<rparr> (item_files item)),
        logged := warnings (persist_files C gi
                 \<lparr>committed = db_rows p, pending = [], warnings = logged p\<rparr> (item_files item))\<rparr>"
  using assms
  by (auto simp add: SQLDatabasePipeline_process_item_def Let_def
      split: if_splits option.splits date_field.splits sum.splits)

lemma sample_gazette_item_of:
  "gazette_item_of sample_item \<lparr>year = 2024, month = 1, day = 5\<rparr>
     \<lparr>year = 2024, month = 1, day = 5, hour = 12, minute = 0, second = 0, microsecond = 123\<rparr> =
   sample_gazette_item"
  by (simp add: gazette_item_of_def sample_item_def sample_gazette_item_def)

lemma sample_loop_unique:
  "persist_files unique_checksum_db sample_gazette_item empty_session sample_files =
     \<lparr>committed = [Gazette sample_gazette_item file_a, Gazette sample_gazette_item file_d],
      pending = [],
      warnings = [warning_message (Gazette sample_gazette_item file_c) ''(IntegrityError)'']\<rparr>"
  by (simp add: persist_files_def persist_file_def Let_def unique_checksum_db_def
      empty_session_def sample_files_def file_a_def file_b_def file_c_def file_d_def
      Gazette_def sample_gazette_item_def)

lemma sample_run_unique:
  "SQLDatabasePipeline_process_item unique_checksum_db sample_pipeline sample_item =
     (Inr sample_item,
      sample_pipeline
        \<lparr>db_rows := [Gazette sample_gazette_item file_a, Gazette sample_gazette_item file_d],
         logged := [warning_message (Gazette sample_gazette_item file_c) ''(IntegrityError)'']\<rparr>)"
proof -
  have u: "database_url sample_pipeline \<noteq> None" "Session sample_pipeline"
    by (simp_all add: sample_pipeline_def)
  have i: "date sample_item = Some (DateStr ''2024-01-05'')"
      "scraped_at sample_item = Some ''2024-01-05T12:00:00.000123Z''"
    by (simp_all add: sample_item_def)
  have f: "item_files sample_item = sample_files"
    by (simp add: sample_item_def item_files_def)
  have r: "\<lparr>committed = db_rows sample_pipeline, pending = [],
            warnings = logged sample_pipeline\<rparr> = empty_session"
    by (simp add: sample_pipeline_def empty_session_def)
  show ?thesis
    using sql_process_item_run[OF u i(1) sample_date i(2) sample_scraped_at,
        of unique_checksum_db]
    by (simp only: sample_gazette_item_of f r sample_loop_unique session.simps)
qed

lemma sample_count: "non_uptodate_count sample_item = 3"
  by (simp add: non_uptodate_count_def non_uptodate_def sample_item_def sample_files_def
      item_files_def file_a_def file_b_def file_c_def file_d_def)

lemma gazette_item_of_files:
  "gazette_item_of (item\<lparr>files := x\<rparr>) d t = gazette_item_of item d t"
  by (simp add: gazette_item_of_def)

lemma item_files_update: "item_files (item\<lparr>files := Some fs\<rparr>) = fs"
  by (simp add: item_files_def)

lemma sql_state_after:
  assumes "database_url p \<noteq> None" "Session p" "date item = Some (DateStr ds)"
    "strptime_date ds = Inr d" "scraped_at item = Some ss" "strptime_scraped_at ss = Inr t"
  shows "SQLDatabasePipeline_process_item C p (item\<lparr>files := Some fs\<rparr>) =
     (Inr (item\<lparr>files := Some fs\<rparr>),
      p\<lparr>db_rows := committed (persist_files C (gazette_item_of item d t)
                 \<lparr>committed = db_rows p, pending = [], warnings = logged p\<rparr> fs),
        logged := warnings (persist_files C (gazette_item_of item d t)
                 \<lparr>committed = db_rows p, pending = [], warnings = logged p\<rparr> fs)\<rparr>)"
  using sql_process_item_run[of p "item\<lparr>files := Some fs\<rparr>" ds d ss t C] assms
  by (simp add: gazette_item_of_files item_files_update)

lemma session_eq:
  "pending s = [] \<Longrightarrow> \<lparr>committed = committed s, pending = [], warnings = warnings s\<rparr> = s"
  by (cases s) simp

text \<open>
  C1 (as amended).  When the sink has a database and processes an item whose date and
  scrape timestamp it can read, the file results are taken in turn, and what the last
  one adds to the files before it is: nothing when its status is \<^verbatim>\<open>uptodate\<close>;
  exactly one row, built from the item and that file, when its commit succeeds; and no
  row but one warning when its commit fails.  So the rows added and the warnings logged
  together number the item's file results that are not \<^verbatim>\<open>uptodate\<close>, and when no
  commit fails the rows added are the rows of those file results, in order.
\<close>

theorem sink_rows_for_non_uptodate_files:
  assumes "database_url p \<noteq> None" and "Session p"
    and "date item = Some (DateStr ds)" and "strptime_date ds = Inr d"
    and "scraped_at item = Some ss" and "strptime_scraped_at ss = Inr t"
  shows "(item_files item = [] \<longrightarrow> snd (SQLDatabasePipeline_process_item C p item) = p) \<and>
         (\<forall>pre f before after.
            item_files item = pre @ [f] \<and>
            before = snd (SQLDatabasePipeline_process_item C p (item\<lparr>files := Some pre\<rparr>)) \<and>
            after = snd (SQLDatabasePipeline_process_item C p item) \<longrightarrow>
              (status f = ''uptodate'' \<longrightarrow> after = before) \<and>
              (status f \<noteq> ''uptodate'' \<and>
               C (db_rows before) [Gazette (gazette_item_of item d t) f] = None \<longrightarrow>
                 db_rows after = db_rows before @ [Gazette (gazette_item_of item d t) f] \<and>
                 logged after = logged before) \<and>
              (\<forall>details.
                 status f \<noteq> ''uptodate'' \<and>
                 C (db_rows before) [Gazette (gazette_item_of item d t) f] = Some details \<longrightarrow>
                   db_rows after = db_rows before \<and>
                   logged after = logged before @
                     [warning_message (Gazette (gazette_item_of item d t) f) details])) \<and>
         rows_added C p item + warnings_added C p item = non_uptodate_count item \<and>
         ((\<forall>rows pend. C rows pend = None) \<longrightarrow>
            db_rows (snd (SQLDatabasePipeline_process_item C p item)) =
              db_rows p @ map (Gazette (gazette_item_of item d t)) (non_uptodate (item_files item)) \<and>
            rows_added C p item = non_uptodate_count item)"
proof -
  let ?gi = "gazette_item_of item d t"
  let ?s0 = "\<lparr>committed = db_rows p, pending = [], warnings = logged p\<rparr>"
  have run: "SQLDatabasePipeline_process_item C p item =
     (Inr item, p\<lparr>db_rows := committed (persist_files C ?gi ?s0 (item_files item)),
                 logged := warnings (persist_files C ?gi ?s0 (item_files item))\<rparr>)"
    using assms by (rule sql_process_item_run)
  have part: "SQLDatabasePipeline_process_item C p (item\<lparr>files := Some fs\<rparr>) =
     (Inr (item\<lparr>files := Some fs\<rparr>),
      p\<lparr>db_rows := committed (persist_files C ?gi ?s0 fs),
        logged := warnings (persist_files C ?gi ?s0 fs)\<rparr>)" for fs
    using assms by (rule sql_state_after)
  have p0: "pending ?s0 = []" by simp
  have c1: "item_files item = [] \<longrightarrow> snd (SQLDatabasePipeline_process_item C p item) = p"
    by (simp add: run persist_files_Nil)
  have c2: "(status f = ''uptodate'' \<longrightarrow> after = before) \<and>
      (status f \<noteq> ''uptodate'' \<and> C (db_rows before) [Gazette ?gi f] = None \<longrightarrow>
         db_rows after = db_rows before @ [Gazette ?gi f] \<and> logged after = logged before) \<and>
      (\<forall>details. status f \<noteq> ''uptodate'' \<and> C (db_rows before) [Gazette ?gi f] = Some details \<longrightarrow>
         db_rows after = db_rows before \<and>
         logged after = logged before @ [warning_message (Gazette ?gi f) details])"
    if h: "item_files item = pre @ [f] \<and>
       before = snd (SQLDatabasePipeline_process_item C p (item\<lparr>files := Some pre\<rparr>)) \<and>
       after = snd (SQLDatabasePipeline_process_item C p item)" for pre f before after
  proof -
    let ?s1 = "persist_files C ?gi ?s0 pre"
    have p1: "pending ?s1 = []" using p0 by (rule persist_files_pending)
    have b: "before = p\<lparr>db_rows := committed ?s1, logged := warnings ?s1\<rparr>"
      using h by (simp add: part)
    have a: "after = p\<lparr>db_rows := committed (persist_file C ?gi ?s1 f),
                        logged := warnings (persist_file C ?gi ?s1 f)\<rparr>"
      using h by (simp add: run persist_files_append persist_files_Cons persist_files_Nil)
    have rb: "db_rows before = committed ?s1" "logged before = warnings ?s1"
      by (simp_all add: b)
    show ?thesis
    proof (intro conjI impI allI)
      assume "status f = ''uptodate''"
      then show "after = before" by (simp add: a b persist_file_uptodate)
    next
      assume ok: "status f \<noteq> ''uptodate'' \<and> C (db_rows before) [Gazette ?gi f] = None"
      then have "persist_file C ?gi ?s1 f = ?s1\<lparr>committed := committed ?s1 @ [Gazette ?gi f]\<rparr>"
        using p1 by (simp add: persist_file_ok rb)
      then show "db_rows after = db_rows before @ [Gazette ?gi f]" "logged after = logged before"
        by (simp_all add: a b)
    next
      fix details
      assume bad: "status f \<noteq> ''uptodate'' \<and> C (db_rows before) [Gazette ?gi f] = Some details"
      then have "persist_file C ?gi ?s1 f =
          ?s1\<lparr>warnings := warnings ?s1 @ [warning_message (Gazette ?gi f) details]\<rparr>"
        using p1 by (simp add: persist_file_fail rb)
      then show "db_rows after = db_rows before"
        "logged after = logged before @ [warning_message (Gazette ?gi f) details]"
        by (simp_all add: a b)
    qed
  qed
  have cnt: "length (committed (persist_files C ?gi ?s0 (item_files item))) +
             length (warnings (persist_files C ?gi ?s0 (item_files item))) =
             length (db_rows p) + length (logged p) + length (non_uptodate (item_files item))"
    using persist_files_count[OF p0, of C ?gi "item_files item"] by simp
  obtain added where added:
      "committed (persist_files C ?gi ?s0 (item_files item)) = db_rows p @ added"
    using persist_files_rows[OF p0, of C ?gi "item_files item"] by auto
  have c3: "rows_added C p item + warnings_added C p item = non_uptodate_count item"
    using cnt added persist_files_warnings_mono[of ?s0 C ?gi "item_files item"]
    by (simp add: rows_added_def warnings_added_def non_uptodate_count_def run)
  have c4: "db_rows (snd (SQLDatabasePipeline_process_item C p item)) =
              db_rows p @ map (Gazette ?gi) (non_uptodate (item_files item)) \<and>
            rows_added C p item = non_uptodate_count item"
    if "\<forall>rows pend. C rows pend = None"
    using persist_files_all_ok[of C ?s0 ?gi "item_files item"] that
    by (simp add: run rows_added_def non_uptodate_count_def)
  show ?thesis using c1 c2 c3 c4 by blast
qed

lemma sample_prefix_run:
  "snd (SQLDatabasePipeline_process_item unique_checksum_db sample_pipeline
          (sample_item\<lparr>files := Some [file_a, file_b, file_c]\<rparr>)) =
     sample_pipeline
       \<lparr>db_rows := [Gazette sample_gazette_item file_a],
        logged := [warning_message (Gazette sample_gazette_item file_c) ''(IntegrityError)'']\<rparr>"
proof -
  have u: "database_url sample_pipeline \<noteq> None" "Session sample_pipeline"
    by (simp_all add: sample_pipeline_def)
  have i: "date sample_item = Some (DateStr ''2024-01-05'')"
      "scraped_at sample_item = Some ''2024-01-05T12:00:00.000123Z''"
    by (simp_all add: sample_item_def)
  have r: "\<lparr>committed = db_rows sample_pipeline, pending = [],
            warnings = logged sample_pipeline\<rparr> = empty_session"
    by (simp add: sample_pipeline_def empty_session_def)
  have l: "persist_files unique_checksum_db sample_gazette_item empty_session
       [file_a, file_b, file_c] =
     \<lparr>committed = [Gazette sample_gazette_item file_a], pending = [],
      warnings = [warning_message (Gazette sample_gazette_item file_c) ''(IntegrityError)'']\<rparr>"
    by (simp add: persist_files_def persist_file_def Let_def unique_checksum_db_def
      empty_session_def file_a_def file_b_def file_c_def
      Gazette_def sample_gazette_item_def)
  show ?thesis
    using sql_state_after[OF u i(1) sample_date i(2) sample_scraped_at,
        of unique_checksum_db "[file_a, file_b, file_c]"]
    by (simp only: sample_gazette_item_of r l session.simps snd_conv)
qed

theorem sink_rows_witness:
  "database_url sample_pipeline \<noteq> None \<and> Session sample_pipeline \<and>
   date sample_item = Some (DateStr ''2024-01-05'') \<and>
   strptime_date ''2024-01-05'' = Inr \<lparr>year = 2024, month = 1, day = 5\<rparr> \<and>
   scraped_at sample_item = Some ''2024-01-05T12:00:00.000123Z'' \<and>
   strptime_scraped_at ''2024-01-05T12:00:00.000123Z'' =
     Inr \<lparr>year = 2024, month = 1, day = 5,
          hour = 12, minute = 0, second = 0, microsecond = 123\<rparr> \<and>
   item_files sample_item = [file_a, file_b, file_c] @ [file_d] \<and>
   status file_d \<noteq> ''uptodate'' \<and>
   unique_checksum_db [Gazette sample_gazette_item file_a]
     [Gazette sample_gazette_item file_d] = None \<and>
   db_rows (snd (SQLDatabasePipeline_process_item unique_checksum_db sample_pipeline
     sample_item)) =
     [Gazette sample_gazette_item file_a] @ [Gazette sample_gazette_item file_d] \<and>
   rows_added unique_checksum_db sample_pipeline sample_item +
     warnings_added unique_checksum_db sample_pipeline sample_item =
     non_uptodate_count sample_item"
proof -
  have u: "database_url sample_pipeline \<noteq> None" "Session sample_pipeline"
    by (simp_all add: sample_pipeline_def)
  have i: "date sample_item = Some (DateStr ''2024-01-05'')"
      "scraped_at sample_item = Some ''2024-01-05T12:00:00.000123Z''"
    by (simp_all add: sample_item_def)
  have f: "item_files sample_item = [file_a, file_b, file_c] @ [file_d]"
    by (simp add: sample_item_def item_files_def sample_files_def)
  have st: "status file_d \<noteq> ''uptodate''" by (simp add: file_d_def)
  have ok: "unique_checksum_db [Gazette sample_gazette_item file_a]
     [Gazette sample_gazette_item file_d] = None"
    by (simp add: unique_checksum_db_def Gazette_def file_a_def file_d_def)
  note inst = sink_rows_for_non_uptodate_files
    [OF u i(1) sample_date i(2) sample_scraped_at, of unique_checksum_db,
     unfolded sample_gazette_item_of]
  note per_file = inst[THEN conjunct2, THEN conjunct1, rule_format,
      of "[file_a, file_b, file_c]" file_d
         "snd (SQLDatabasePipeline_process_item unique_checksum_db sample_pipeline
            (sample_item\<lparr>files := Some [file_a, file_b, file_c]\<rparr>))"
         "snd (SQLDatabasePipeline_process_item unique_checksum_db sample_pipeline sample_item)"]
  have before: "db_rows (snd (SQLDatabasePipeline_process_item unique_checksum_db sample_pipeline
            (sample_item\<lparr>files := Some [file_a, file_b, file_c]\<rparr>))) =
       [Gazette sample_gazette_item file_a]"
    by (simp only: sample_prefix_run) simp
  have "status file_d \<noteq> ''uptodate'' \<and>
      unique_checksum_db
        (db_rows (snd (SQLDatabasePipeline_process_item unique_checksum_db sample_pipeline
            (sample_item\<lparr>files := Some [file_a, file_b, file_c]\<rparr>))))
        [Gazette sample_gazette_item file_d] = None"
    using st ok by (simp only: before) simp
  then have rows: "db_rows (snd (SQLDatabasePipeline_process_item unique_checksum_db sample_pipeline
     sample_item)) =
     [Gazette sample_gazette_item file_a] @ [Gazette sample_gazette_item file_d]"
    using per_file[OF conjI[OF f conjI[OF refl refl]]] by (simp only: before) blast
  have cnt: "rows_added unique_checksum_db sample_pipeline sample_item +
     warnings_added unique_checksum_db sample_pipeline sample_item =
     non_uptodate_count sample_item"
    using inst by blast
  show ?thesis using u i sample_date sample_scraped_at f st ok rows cnt by blast
qed

text \<open>
  C1 as stated fails: against a database that refuses a second row with the same
  territory, date and checksum, the sample item has three file results that are not
  \<^verbatim>\<open>uptodate\<close> and gets two rows.
\<close>

theorem sink_rows_counterexample:
  "rows_added unique_checksum_db sample_pipeline sample_item = 2 \<and>
   non_uptodate_count sample_item = 3"
  by (simp add: rows_added_def sample_run_unique sample_count) (simp add: sample_pipeline_def)

text \<open>
  C2.  When the sink processes an item and the commit of the row of a file \<open>f\<close>
  raises, the state after \<open>f\<close> is the state the files before \<open>f\<close> left, with no row
  added (the rollback discards it) and one warning logged, which holds the gazette's
  date and the file's checksum; \<^verbatim>\<open>process_item\<close> goes on with the files after \<open>f\<close>
  from that state, as if it started on them with a fresh session, and returns the item;
  and the pipeline keeps its database and session factory for the items that follow.
\<close>

theorem persistence_error_logged_row_discarded_loop_continues:
  assumes "database_url p \<noteq> None" and "Session p"
    and "date item = Some (DateStr ds)" and "strptime_date ds = Inr d"
    and "scraped_at item = Some ss" and "strptime_scraped_at ss = Inr t"
    and "item_files item = pre @ f # post" and "status f \<noteq> ''uptodate''"
    and "before = snd (SQLDatabasePipeline_process_item C p (item\<lparr>files := Some pre\<rparr>))"
    and "C (db_rows before) [Gazette (gazette_item_of item d t) f] = Some details"
    and "warned = before\<lparr>logged := logged before @
           [''Something wrong has happened when adding the gazette in the database. '' @
            ''Date: '' @ date_isoformat d @ ''. '' @
            ''File Checksum: '' @ checksum f @ ''. '' @
            ''Details: '' @ details]\<rparr>"
  shows "snd (SQLDatabasePipeline_process_item C p (item\<lparr>files := Some (pre @ [f])\<rparr>)) = warned \<and>
         SQLDatabasePipeline_process_item C p item =
           (Inr item,
            snd (SQLDatabasePipeline_process_item C warned (item\<lparr>files := Some post\<rparr>))) \<and>
         database_url (snd (SQLDatabasePipeline_process_item C p item)) = database_url p \<and>
         Session (snd (SQLDatabasePipeline_process_item C p item))"
proof -
  let ?gi = "gazette_item_of item d t"
  let ?s0 = "\<lparr>committed = db_rows p, pending = [], warnings = logged p\<rparr>"
  let ?s1 = "persist_files C ?gi ?s0 pre"
  let ?msg = "''Something wrong has happened when adding the gazette in the database. '' @
            ''Date: '' @ date_isoformat d @ ''. '' @
            ''File Checksum: '' @ checksum f @ ''. '' @
            ''Details: '' @ details"
  have run: "SQLDatabasePipeline_process_item C p item =
     (Inr item, p\<lparr>db_rows := committed (persist_files C ?gi ?s0 (item_files item)),
                 logged := warnings (persist_files C ?gi ?s0 (item_files item))\<rparr>)"
    using assms(1-6) by (rule sql_process_item_run)
  have part: "SQLDatabasePipeline_process_item C p (item\<lparr>files := Some fs\<rparr>) =
     (Inr (item\<lparr>files := Some fs\<rparr>),
      p\<lparr>db_rows := committed (persist_files C ?gi ?s0 fs),
        logged := warnings (persist_files C ?gi ?s0 fs)\<rparr>)" for fs
    using assms(1-6) by (rule sql_state_after)
  have p1: "pending ?s1 = []" by (simp add: persist_files_pending)
  have b: "before = p\<lparr>db_rows := committed ?s1, logged := warnings ?s1\<rparr>"
    using assms(9) by (simp add: part)
  have msg: "warning_message (Gazette ?gi f) details = ?msg"
    by (simp add: warning_message_def Gazette_def gazette_item_of_def)
  have step: "persist_file C ?gi ?s1 f = ?s1\<lparr>warnings := warnings ?s1 @ [?msg]\<rparr>"
    using assms(8,10) p1 by (simp add: persist_file_fail b msg)
  have w: "warned = p\<lparr>db_rows := committed ?s1, logged := warnings ?s1 @ [?msg]\<rparr>"
    using assms(11) by (simp add: b)
  have c1: "snd (SQLDatabasePipeline_process_item C p (item\<lparr>files := Some (pre @ [f])\<rparr>)) = warned"
    by (simp add: part persist_files_append persist_files_Cons persist_files_Nil step w)
  have wu: "database_url warned \<noteq> None" "Session warned"
    using assms(1,2) by (simp_all add: w)
  have s1w: "\<lparr>committed = db_rows warned, pending = [], warnings = logged warned\<rparr> =
      ?s1\<lparr>warnings := warnings ?s1 @ [?msg]\<rparr>"
    using p1 by (cases ?s1) (simp add: w)
  have cont: "SQLDatabasePipeline_process_item C warned (item\<lparr>files := Some post\<rparr>) =
     (Inr (item\<lparr>files := Some post\<rparr>),
      warned\<lparr>db_rows := committed (persist_files C ?gi
                 \<lparr>committed = db_rows warned, pending = [], warnings = logged warned\<rparr> post),
        logged := warnings (persist_files C ?gi
                 \<lparr>committed = db_rows warned, pending = [], warnings = logged warned\<rparr> post)\<rparr>)"
    using wu assms(3-6) by (rule sql_state_after)
  have whole: "persist_files C ?gi ?s0 (item_files item) =
      persist_files C ?gi (?s1\<lparr>warnings := warnings ?s1 @ [?msg]\<rparr>) post"
    by (simp add: assms(7) persist_files_append persist_files_Cons step)
  have c2: "SQLDatabasePipeline_process_item C p item =
           (Inr item,
            snd (SQLDatabasePipeline_process_item C warned (item\<lparr>files := Some post\<rparr>)))"
    by (simp add: run cont s1w whole) (simp add: w)
  have c3: "database_url (snd (SQLDatabasePipeline_process_item C p item)) = database_url p"
    "Session (snd (SQLDatabasePipeline_process_item C p item))"
    using assms(2) by (simp_all add: run)
  show ?thesis using c1 c2 c3 by blast
qed


lemma sample_two_run:
  "snd (SQLDatabasePipeline_process_item unique_checksum_db sample_pipeline
          (sample_item\<lparr>files := Some [file_a, file_b]\<rparr>)) =
     sample_pipeline\<lparr>db_rows := [Gazette sample_gazette_item file_a], logged := []\<rparr>"
proof -
  have u: "database_url sample_pipeline \<noteq> None" "Session sample_pipeline"
    by (simp_all add: sample_pipeline_def)
  have i: "date sample_item = Some (DateStr ''2024-01-05'')"
      "scraped_at sample_item = Some ''2024-01-05T12:00:00.000123Z''"
    by (simp_all add: sample_item_def)
  have r: "\<lparr>committed = db_rows sample_pipeline, pending = [],
            warnings = logged sample_pipeline\<rparr> = empty_session"
    by (simp add: sample_pipeline_def empty_session_def)
  have l: "persist_files unique_checksum_db sample_gazette_item empty_session
       [file_a, file_b] =
     \<lparr>committed = [Gazette sample_gazette_item file_a], pending = [], warnings = []\<rparr>"
    by (simp add: persist_files_def persist_file_def Let_def unique_checksum_db_def
      empty_session_def file_a_def file_b_def)
  show ?thesis
    using sql_state_after[OF u i(1) sample_date i(2) sample_scraped_at,
        of unique_checksum_db "[file_a, file_b]"]
    by (simp only: sample_gazette_item_of r l session.simps snd_conv)
qed

theorem persistence_error_witness:
  "database_url sample_pipeline \<noteq> None \<and> Session sample_pipeline \<and>
   date sample_item = Some (DateStr ''2024-01-05'') \<and>
   strptime_date ''2024-01-05'' = Inr \<lparr>year = 2024, month = 1, day = 5\<rparr> \<and>
   scraped_at sample_item = Some ''2024-01-05T12:00:00.000123Z'' \<and>
   strptime_scraped_at ''2024-01-05T12:00:00.000123Z'' =
     Inr \<lparr>year = 2024, month = 1, day = 5,
          hour = 12, minute = 0, second = 0, microsecond = 123\<rparr> \<and>
   item_files sample_item = [file_a, file_b] @ file_c # [file_d] \<and>
   status file_c \<noteq> ''uptodate'' \<and>
   unique_checksum_db [Gazette sample_gazette_item file_a]
     [Gazette sample_gazette_item file_c] = Some ''(IntegrityError)'' \<and>
   snd (SQLDatabasePipeline_process_item unique_checksum_db sample_pipeline
          (sample_item\<lparr>files := Some ([file_a, file_b] @ [file_c])\<rparr>)) =
     sample_pipeline
       \<lparr>db_rows := [Gazette sample_gazette_item file_a],
        logged := [''Something wrong has happened when adding the gazette in the database. '' @
                   ''Date: 2024-01-05. File Checksum: c1. Details: (IntegrityError)'']\<rparr> \<and>
   SQLDatabasePipeline_process_item unique_checksum_db sample_pipeline sample_item =
     (Inr sample_item,
      snd (SQLDatabasePipeline_process_item unique_checksum_db
             (sample_pipeline
                \<lparr>db_rows := [Gazette sample_gazette_item file_a],
                 logged := [''Something wrong has happened when adding the gazette in the database. '' @
                   ''Date: 2024-01-05. File Checksum: c1. Details: (IntegrityError)'']\<rparr>)
             (sample_item\<lparr>files := Some [file_d]\<rparr>)))"
proof -
  let ?before = "snd (SQLDatabasePipeline_process_item unique_checksum_db sample_pipeline
          (sample_item\<lparr>files := Some [file_a, file_b]\<rparr>))"
  let ?warned = "sample_pipeline
       \<lparr>db_rows := [Gazette sample_gazette_item file_a],
        logged := [''Something wrong has happened when adding the gazette in the database. '' @
                   ''Date: 2024-01-05. File Checksum: c1. Details: (IntegrityError)'']\<rparr>"
  have u: "database_url sample_pipeline \<noteq> None" "Session sample_pipeline"
    by (simp_all add: sample_pipeline_def)
  have i: "date sample_item = Some (DateStr ''2024-01-05'')"
      "scraped_at sample_item = Some ''2024-01-05T12:00:00.000123Z''"
    by (simp_all add: sample_item_def)
  have f: "item_files sample_item = [file_a, file_b] @ file_c # [file_d]"
    by (simp add: sample_item_def item_files_def sample_files_def)
  have st: "status file_c \<noteq> ''uptodate''" by (simp add: file_c_def)
  have bad: "unique_checksum_db [Gazette sample_gazette_item file_a]
     [Gazette sample_gazette_item file_c] = Some ''(IntegrityError)''"
    by (simp add: unique_checksum_db_def Gazette_def file_a_def file_c_def)
  have rows: "db_rows ?before = [Gazette sample_gazette_item file_a]"
    by (simp only: sample_two_run) simp
  have bad': "unique_checksum_db (db_rows ?before)
      [Gazette (gazette_item_of sample_item \<lparr>year = 2024, month = 1, day = 5\<rparr>
         \<lparr>year = 2024, month = 1, day = 5,
          hour = 12, minute = 0, second = 0, microsecond = 123\<rparr>) file_c] =
      Some ''(IntegrityError)''"
    using bad by (simp only: rows sample_gazette_item_of)
  have date: "date_isoformat \<lparr>year = 2024, month = 1, day = 5\<rparr> = ''2024-01-05''"
    by (simp add: date_isoformat_def zpad_2 zpad_4 digit_char_def)
  have w: "?warned = ?before\<lparr>logged := logged ?before @
           [''Something wrong has happened when adding the gazette in the database. '' @
            ''Date: '' @ date_isoformat \<lparr>year = 2024, month = 1, day = 5\<rparr> @ ''. '' @
            ''File Checksum: '' @ checksum file_c @ ''. '' @
            ''Details: '' @ ''(IntegrityError)'']\<rparr>"
    by (simp only: sample_two_run date) (simp add: file_c_def)
  note inst = persistence_error_logged_row_discarded_loop_continues
    [OF u i(1) sample_date i(2) sample_scraped_at f st refl bad' w]
  show ?thesis using u i sample_date sample_scraped_at f st bad inst by simp
qed

subsection \<open>The date gate\<close>

text \<open>
  C4 (as amended).  The date gate raises \<^verbatim>\<open>DropItem\<close> exactly when the spider has a
  start date and the item's date is a date before it; with no start date it returns
  every item as it came; an item whose date is a date not before the start date is
  returned as it came; and with a start date, an item that has no date, or whose date is
  not a date object, raises \<^verbatim>\<open>TypeError\<close>.  The function takes the item and the
  spider and returns the item or the exception: there is nothing else it could change.
\<close>

theorem date_gate_drops_only_before_start_date:
  "((\<exists>msg. GazetteDateFilteringPipeline_process_item item spider = Inl (DropItem msg)) =
      (\<exists>sd d. start_date spider = Some sd \<and> date item = Some (DateObj d) \<and> date_gt sd d)) \<and>
   (start_date spider = None \<longrightarrow>
      GazetteDateFilteringPipeline_process_item item spider = Inr item) \<and>
   (\<forall>sd d. start_date spider = Some sd \<and> date item = Some (DateObj d) \<and> \<not> date_gt sd d \<longrightarrow>
      GazetteDateFilteringPipeline_process_item item spider = Inr item) \<and>
   (\<forall>sd. start_date spider = Some sd \<and> (\<forall>d. date item \<noteq> Some (DateObj d)) \<longrightarrow>
      GazetteDateFilteringPipeline_process_item item spider = Inl TypeError)"
  by (auto simp add: GazetteDateFilteringPipeline_process_item_def
      split: option.splits date_field.splits)

theorem date_gate_witness:
  "GazetteDateFilteringPipeline_process_item raw_item late_spider =
     Inl (DropItem ''Droping all items before 2024-02-01'') \<and>
   GazetteDateFilteringPipeline_process_item raw_item early_spider = Inr raw_item \<and>
   GazetteDateFilteringPipeline_process_item raw_item plain_spider = Inr raw_item \<and>
   GazetteDateFilteringPipeline_process_item sample_item early_spider = Inl TypeError"
proof -
  have a: "start_date plain_spider = None" by (simp add: plain_spider_def)
  have b: "date raw_item = Some (DateObj \<lparr>year = 2024, month = 1, day = 5\<rparr>)"
    by (simp add: raw_item_def)
  have c: "start_date early_spider = Some \<lparr>year = 2024, month = 1, day = 5\<rparr>"
    "\<not> date_gt \<lparr>year = 2024, month = 1, day = 5\<rparr> \<lparr>year = 2024, month = 1, day = 5\<rparr>"
    by (simp_all add: early_spider_def date_gt_def)
  have d: "\<exists>sd d. start_date late_spider = Some sd \<and> date raw_item = Some (DateObj d) \<and>
             date_gt sd d"
    by (simp add: late_spider_def raw_item_def date_gt_def)
  have e: "\<forall>d. date sample_item \<noteq> Some (DateObj d)" by (simp add: sample_item_def)
  have "\<exists>msg. GazetteDateFilteringPipeline_process_item raw_item late_spider =
      Inl (DropItem msg)"
    using date_gate_drops_only_before_start_date[of raw_item late_spider] d by blast
  then have "GazetteDateFilteringPipeline_process_item raw_item late_spider =
     Inl (DropItem ''Droping all items before 2024-02-01'')"
    by (simp add: GazetteDateFilteringPipeline_process_item_def late_spider_def raw_item_def
        date_gt_def date_isoformat_def zpad_2 zpad_4 digit_char_def)
  moreover have "GazetteDateFilteringPipeline_process_item raw_item early_spider = Inr raw_item"
    using date_gate_drops_only_before_start_date[of raw_item early_spider] b c by blast
  moreover have "GazetteDateFilteringPipeline_process_item raw_item plain_spider = Inr raw_item"
    using date_gate_drops_only_before_start_date[of raw_item plain_spider] a by blast
  moreover have "GazetteDateFilteringPipeline_process_item sample_item early_spider = Inl TypeError"
    using date_gate_drops_only_before_start_date[of sample_item early_spider] c(1) e by blast
  ultimately show ?thesis by blast
qed

text \<open>
  C4 as stated fails: the claim returns every item that is not dropped.  With a start
  date, an item without a date, and an item whose date is a string, are neither dropped
  nor returned: the comparison raises \<^verbatim>\<open>TypeError\<close>.
\<close>

theorem date_gate_counterexample:
  "start_date early_spider = Some \<lparr>year = 2024, month = 1, day = 5\<rparr> \<and>
   date undated_item = None \<and>
   GazetteDateFilteringPipeline_process_item undated_item early_spider = Inl TypeError \<and>
   date sample_item = Some (DateStr ''2024-01-05'') \<and>
   GazetteDateFilteringPipeline_process_item sample_item early_spider = Inl TypeError"
  by (simp add: GazetteDateFilteringPipeline_process_item_def early_spider_def
      undated_item_def sample_item_def)

subsection \<open>The metadata sink without a database\<close>

text \<open>
  C8.  With no database URL, \<^verbatim>\<open>open_spider\<close> initialises nothing and
  \<^verbatim>\<open>process_item\<close> returns the item and leaves the pipeline, its rows and its log as
  they were.  The files pipeline never reads the database URL: none of its functions
  takes the pipeline object.
\<close>

theorem sink_without_database_is_noop:
  "database_url p = None \<Longrightarrow>
   open_spider p = p \<and> SQLDatabasePipeline_process_item C p item = (Inr item, p)"
  by (simp add: open_spider_def SQLDatabasePipeline_process_item_def)

theorem sink_without_database_witness:
  "database_url no_database_pipeline = None \<and>
   open_spider no_database_pipeline = no_database_pipeline \<and>
   SQLDatabasePipeline_process_item unique_checksum_db no_database_pipeline sample_item =
     (Inr sample_item, no_database_pipeline)"
proof -
  have h: "database_url no_database_pipeline = None" by (simp add: no_database_pipeline_def)
  show ?thesis
    using h sink_without_database_is_noop[OF h, of unique_checksum_db sample_item] by simp
qed

subsection \<open>What the normalizer writes and what the sink reads\<close>

lemma match_time_digit: "match_time (digit_char k # r) = []"
  by (simp add: match_time_def lit_digit_char not_digits)

lemma valid_datetime_bounds:
  assumes "valid_datetime t"
  shows "valid_ymd (year t) (month t) (day t)" "hour t < 24" "minute t < 60" "second t < 60"
    "microsecond t < 1000000"
  using assms by (simp_all add: valid_datetime_def valid_date_def)

lemma strptime_date_isoformat:
  fixes d :: pydate
  assumes "valid_date d"
  shows "strptime_date (date_isoformat d) = Inr d"
proof -
  have v: "valid_ymd (year d) (month d) (day d)" using assms by (simp add: valid_date_def)
  show ?thesis
    using match_date_isoformat[OF v, of "[]"] v
    by (simp add: strptime_date_def date_isoformat_def)
qed

lemma strptime_scraped_at_isoformat:
  assumes "valid_datetime t" and "microsecond t \<noteq> 0"
  shows "strptime_scraped_at (datetime_isoformat t @ ''Z'') = Inr t"
proof -
  note b = valid_datetime_bounds[OF assms(1)]
  show ?thesis
    using b(1) b(4) assms(2)
    by (simp add: strptime_scraped_at_def datetime_isoformat_def date_isoformat_def
        match_date_isoformat[OF b(1)] match_time_isoformat[OF b(2) b(3) b(4) b(5)]
        match_time_digit)
qed

lemma strptime_scraped_at_whole_second:
  assumes "valid_datetime t" and "microsecond t = 0"
  shows "strptime_scraped_at (datetime_isoformat t @ ''Z'') = Inl ValueError"
proof -
  note b = valid_datetime_bounds[OF assms(1)]
  show ?thesis
    using assms(2)
    by (simp add: strptime_scraped_at_def datetime_isoformat_def date_isoformat_def
        match_date_isoformat[OF b(1)] match_time_no_fraction[OF b(2) b(3) b(4)]
        match_time_digit)
qed

lemma length_zpad: "length (zpad w n) = w"
  by (induction w arbitrary: n) simp_all

lemma default_values_run:
  assumes "TERRITORY_ID spider = Some tid" and "date item = Some v"
  shows "DefaultValuesPipeline_process_item now item spider =
     Inr (item\<lparr>territory_id := Some tid, date := Some (DateStr (py_str v)),
               scraped_at := Some (datetime_isoformat now @ ''Z'')\<rparr>)"
  using assms by (simp add: DefaultValuesPipeline_process_item_def)

text \<open>
  C9 (as amended).  For a spider that has a \<^verbatim>\<open>TERRITORY_ID\<close> and an item that has a
  date, the normalizer returns the item with the territory set to the spider's, the date
  replaced by its string (for a date object \<^verbatim>\<open>YYYY-MM-DD\<close>, ten characters, which the
  sink's \<^verbatim>\<open>%Y-%m-%d\<close> reads back as the same date) and the scrape timestamp set to
  \<^verbatim>\<open>YYYY-MM-DDTHH:MM:SS\<close>, then \<^verbatim>\<open>.ffffff\<close> unless the microsecond is 0, then
  \<^verbatim>\<open>Z\<close>.  Without a \<^verbatim>\<open>TERRITORY_ID\<close> it raises \<^verbatim>\<open>AttributeError\<close>, and with one but
  no date on the item \<^verbatim>\<open>KeyError\<close>.
\<close>

theorem normalizer_sets_territory_date_and_timestamp:
  "(TERRITORY_ID spider = Some tid \<and> date item = Some v \<longrightarrow>
      DefaultValuesPipeline_process_item now item spider =
        Inr (item\<lparr>territory_id := Some tid, date := Some (DateStr (py_str v)),
                  scraped_at :=
                    Some (zpad 4 (year now) @ ''-'' @ zpad 2 (month now) @ ''-'' @
                          zpad 2 (day now) @ ''T'' @ zpad 2 (hour now) @ '':'' @
                          zpad 2 (minute now) @ '':'' @ zpad 2 (second now) @
                          (if microsecond now = 0 then [] else ''.'' @ zpad 6 (microsecond now)) @
                          ''Z'')\<rparr>)) \<and>
   (\<forall>d. v = DateObj d \<longrightarrow>
      py_str v = zpad 4 (year d) @ ''-'' @ zpad 2 (month d) @ ''-'' @ zpad 2 (day d) \<and>
      length (py_str v) = 10 \<and>
      (valid_date d \<longrightarrow> strptime_date (py_str v) = Inr d)) \<and>
   (TERRITORY_ID spider = None \<longrightarrow>
      DefaultValuesPipeline_process_item now item spider = Inl AttributeError) \<and>
   (TERRITORY_ID spider = Some tid \<and> date item = None \<longrightarrow>
      DefaultValuesPipeline_process_item now item spider = Inl KeyError)"
proof (intro conjI allI impI)
  assume "TERRITORY_ID spider = Some tid \<and> date item = Some v"
  then show "DefaultValuesPipeline_process_item now item spider =
        Inr (item\<lparr>territory_id := Some tid, date := Some (DateStr (py_str v)),
                  scraped_at :=
                    Some (zpad 4 (year now) @ ''-'' @ zpad 2 (month now) @ ''-'' @
                          zpad 2 (day now) @ ''T'' @ zpad 2 (hour now) @ '':'' @
                          zpad 2 (minute now) @ '':'' @ zpad 2 (second now) @
                          (if microsecond now = 0 then [] else ''.'' @ zpad 6 (microsecond now)) @
                          ''Z'')\<rparr>)"
    by (simp add: default_values_run datetime_isoformat_def date_isoformat_def)
next
  fix d assume "v = DateObj d"
  then show "py_str v = zpad 4 (year d) @ ''-'' @ zpad 2 (month d) @ ''-'' @ zpad 2 (day d)"
    by (simp add: date_isoformat_def)
next
  fix d assume "v = DateObj d"
  then show "length (py_str v) = 10"
    by (simp add: date_isoformat_def length_zpad)
next
  fix d assume "v = DateObj d" and "valid_date d"
  then show "strptime_date (py_str v) = Inr d"
    by (simp add: strptime_date_isoformat)
next
  assume "TERRITORY_ID spider = None"
  then show "DefaultValuesPipeline_process_item now item spider = Inl AttributeError"
    by (simp add: DefaultValuesPipeline_process_item_def)
next
  assume "TERRITORY_ID spider = Some tid \<and> date item = None"
  then show "DefaultValuesPipeline_process_item now item spider = Inl KeyError"
    by (simp add: DefaultValuesPipeline_process_item_def)
qed

theorem normalizer_witness:
  "TERRITORY_ID plain_spider = Some ''X'' \<and>
   date raw_item = Some (DateObj \<lparr>year = 2024, month = 1, day = 5\<rparr>) \<and>
   DefaultValuesPipeline_process_item later_instant raw_item plain_spider =
     Inr (raw_item\<lparr>territory_id := Some ''X'', date := Some (DateStr ''2024-01-05''),
                   scraped_at := Some ''2024-01-05T12:00:00.000123Z''\<rparr>) \<and>
   strptime_date ''2024-01-05'' = Inr \<lparr>year = 2024, month = 1, day = 5\<rparr>"
proof -
  have h1: "TERRITORY_ID plain_spider = Some ''X''" by (simp add: plain_spider_def)
  have h2: "date raw_item = Some (DateObj \<lparr>year = 2024, month = 1, day = 5\<rparr>)"
    by (simp add: raw_item_def)
  have v: "valid_date \<lparr>year = 2024, month = 1, day = 5\<rparr>"
    by (simp add: valid_date_def valid_ymd_def days_in_month_def)
  note inst = normalizer_sets_territory_date_and_timestamp
    [of plain_spider "''X''" raw_item "DateObj \<lparr>year = 2024, month = 1, day = 5\<rparr>"
        later_instant]
  have "DefaultValuesPipeline_process_item later_instant raw_item plain_spider =
     Inr (raw_item\<lparr>territory_id := Some ''X'', date := Some (DateStr ''2024-01-05''),
                   scraped_at := Some ''2024-01-05T12:00:00.000123Z''\<rparr>)"
    using inst h1 h2 by (simp add: later_instant_def date_isoformat_def zpad_6 zpad_4 zpad_2 digit_char_def)
  moreover have "strptime_date ''2024-01-05'' = Inr \<lparr>year = 2024, month = 1, day = 5\<rparr>"
    using inst v by (simp add: date_isoformat_def zpad_6 zpad_4 zpad_2 digit_char_def)
  ultimately show ?thesis using h1 h2 by blast
qed

text \<open>
  C9 as stated fails: the normalizer does not return the item for every input.  For a
  spider with no \<^verbatim>\<open>TERRITORY_ID\<close>, \<^verbatim>\<open>getattr(spider, "TERRITORY_ID")\<close> raises.
\<close>

theorem normalizer_counterexample:
  "DefaultValuesPipeline_process_item later_instant raw_item anonymous_spider =
     Inl AttributeError"
  by (simp add: DefaultValuesPipeline_process_item_def anonymous_spider_def)

text \<open>
  C10 fails on the code.  When \<^verbatim>\<open>utcnow()\<close> returns an instant whose microsecond
  is 0, \<^verbatim>\<open>isoformat\<close> writes no fraction, the normalizer stores
  \<^verbatim>\<open>YYYY-MM-DDTHH:MM:SSZ\<close>, and the sink's \<^verbatim>\<open>%Y-%m-%dT%H:%M:%S.%fZ\<close> does not read
  it: \<^verbatim>\<open>strptime\<close> raises \<^verbatim>\<open>ValueError\<close> and the sink, when it has a database, stops
  on the item before any row is written.  (For every other instant the string is read
  back as the instant: \<open>strptime_scraped_at_isoformat\<close>.)
\<close>

theorem whole_second_timestamp_is_not_read_back:
  assumes "valid_datetime now" and "microsecond now = 0"
    and "TERRITORY_ID spider = Some tid" and "date item = Some (DateObj d)" and "valid_date d"
    and "database_url p \<noteq> None" and "Session p"
  shows "\<exists>item'. DefaultValuesPipeline_process_item now item spider = Inr item' \<and>
           scraped_at item' = Some (datetime_isoformat now @ ''Z'') \<and>
           strptime_scraped_at (datetime_isoformat now @ ''Z'') = Inl ValueError \<and>
           SQLDatabasePipeline_process_item C p item' = (Inl ValueError, p)"
proof -
  let ?item' = "item\<lparr>territory_id := Some tid, date := Some (DateStr (py_str (DateObj d))),
                      scraped_at := Some (datetime_isoformat now @ ''Z'')\<rparr>"
  have run: "DefaultValuesPipeline_process_item now item spider = Inr ?item'"
    using assms(3,4) by (rule default_values_run)
  have bad: "strptime_scraped_at (datetime_isoformat now @ ''Z'') = Inl ValueError"
    using assms(1,2) by (rule strptime_scraped_at_whole_second)
  have good: "strptime_date (date_isoformat d) = Inr d"
    using assms(5) by (rule strptime_date_isoformat)
  have "SQLDatabasePipeline_process_item C p ?item' = (Inl ValueError, p)"
    using assms(6,7) bad good by (auto simp add: SQLDatabasePipeline_process_item_def)
  then show ?thesis using run bad by simp
qed

theorem whole_second_timestamp_witness:
  "valid_datetime whole_second \<and> microsecond whole_second = 0 \<and>
   DefaultValuesPipeline_process_item whole_second raw_item plain_spider =
     Inr (raw_item\<lparr>territory_id := Some ''X'', date := Some (DateStr ''2024-01-05''),
                   scraped_at := Some ''2024-01-05T12:00:00Z''\<rparr>) \<and>
   strptime_scraped_at ''2024-01-05T12:00:00Z'' = Inl ValueError \<and>
   SQLDatabasePipeline_process_item accepting_db sample_pipeline
     (raw_item\<lparr>territory_id := Some ''X'', date := Some (DateStr ''2024-01-05''),
                scraped_at := Some ''2024-01-05T12:00:00Z''\<rparr>) =
     (Inl ValueError, sample_pipeline)"
proof -
  have h1: "valid_datetime whole_second"
    by (simp add: whole_second_def valid_datetime_def valid_date_def valid_ymd_def
        days_in_month_def)
  have h2: "microsecond whole_second = 0" by (simp add: whole_second_def)
  have h3: "TERRITORY_ID plain_spider = Some ''X''" by (simp add: plain_spider_def)
  have h4: "date raw_item = Some (DateObj \<lparr>year = 2024, month = 1, day = 5\<rparr>)"
    by (simp add: raw_item_def)
  have h5: "valid_date \<lparr>year = 2024, month = 1, day = 5\<rparr>"
    by (simp add: valid_date_def valid_ymd_def days_in_month_def)
  have h6: "database_url sample_pipeline \<noteq> None" and h7: "Session sample_pipeline"
    by (simp_all add: sample_pipeline_def)
  have iso: "datetime_isoformat whole_second @ ''Z'' = ''2024-01-05T12:00:00Z''"
    by (simp add: datetime_isoformat_def date_isoformat_def whole_second_def zpad_4 zpad_2 digit_char_def)
  have run: "DefaultValuesPipeline_process_item whole_second raw_item plain_spider =
     Inr (raw_item\<lparr>territory_id := Some ''X'', date := Some (DateStr ''2024-01-05''),
                   scraped_at := Some ''2024-01-05T12:00:00Z''\<rparr>)"
    using default_values_run[OF h3 h4, of whole_second]
    by (simp add: iso) (simp add: date_isoformat_def zpad_6 zpad_4 zpad_2 digit_char_def)
  show ?thesis
    using whole_second_timestamp_is_not_read_back
      [OF h1 h2 h3 h4 h5 h6 h7, of accepting_db] h1 h2
    by (auto simp add: run iso)
qed

subsection \<open>Paths\<close>

lemma split_sep_not_Nil: "split_sep c s \<noteq> []"
  by (induction s) (auto split: list.splits)

lemma split_sep_no_sep: "c \<notin> set a \<Longrightarrow> split_sep c a = [a]"
  by (induction a) auto

lemma split_sep_append: "c \<notin> set a \<Longrightarrow> split_sep c (a @ c # r) = a # split_sep c r"
  by (induction a) auto

lemma split_sep_parts: "x \<in> set (split_sep c s) \<Longrightarrow> c \<notin> set x"
proof (induction s arbitrary: x)
  case Nil
  then show ?case by simp
next
  case (Cons a s)
  show ?case
  proof (cases "a = c")
    case True
    then show ?thesis using Cons by auto
  next
    case False
    obtain y ys where ys: "split_sep c s = y # ys"
      using split_sep_not_Nil[of c s] by (cases "split_sep c s") auto
    then have "x = a # y \<or> x \<in> set ys" using Cons.prems False by simp
    then show ?thesis
      using Cons.IH[of y] Cons.IH[of x] ys False by auto
  qed
qed

lemma split_sep_join_sep:
  "ps \<noteq> [] \<Longrightarrow> \<forall>x \<in> set ps. CHR ''/'' \<notin> set x \<Longrightarrow> split_sep CHR ''/'' (join_sep ps) = ps"
proof (induction ps rule: join_sep.induct)
  case 1
  then show ?case by simp
next
  case (2 x)
  then show ?case by (simp add: split_sep_no_sep)
next
  case (3 x y ys)
  then show ?case by (simp add: split_sep_append)
qed

lemma splitroot_relative: "s \<noteq> [] \<Longrightarrow> hd s \<noteq> CHR ''/'' \<Longrightarrow> splitroot s = ([], s)"
  by (cases s) (simp_all add: splitroot_def)

lemma splitroot_Nil: "splitroot [] = ([], [])"
  by (simp add: splitroot_def)

lemma parse_path_plain: "plain_part a \<Longrightarrow> parse_path a = \<lparr>root = [], parts = [a]\<rparr>"
proof -
  assume a: "plain_part a"
  then have "a \<noteq> []" "hd a \<noteq> CHR ''/''" "CHR ''/'' \<notin> set a" "kept_part a"
    by (auto simp add: plain_part_def kept_part_def) (cases a, auto)
  then show ?thesis
    by (simp add: parse_path_def splitroot_relative split_sep_no_sep)
qed

lemma parts_parse_path_plain: "x \<in> set (parts (parse_path s)) \<Longrightarrow> plain_part x"
  by (auto simp add: parse_path_def plain_part_def split: prod.splits dest: split_sep_parts)



lemma Path_three_plain:
  "plain_part a \<Longrightarrow> plain_part b \<Longrightarrow> plain_part c \<Longrightarrow>
   Path [parse_path a, parse_path b, parse_path c] = \<lparr>root = [], parts = [a, b, c]\<rparr>"
  by (simp add: Path_def join_path_def parse_path_plain)

lemma path_str_three: "path_str \<lparr>root = [], parts = [a, b, c]\<rparr> = a @ ''/'' @ b @ ''/'' @ c"
  by (simp add: path_str_def)

subsection \<open>The storage path\<close>

lemma path_name_plain:
  "path_name (parse_path s) \<noteq> [] \<Longrightarrow> plain_part (path_name (parse_path s))"
  using parts_parse_path_plain[of "last (parts (parse_path s))" s]
  by (auto simp add: path_name_def split: if_splits)

lemma plain_part_with_extension:
  assumes "plain_part name" and "CHR ''/'' \<notin> set ext"
  shows "plain_part (name @ ''.'' @ ext)"
proof -
  obtain c cs where "name = c # cs" using assms(1) by (cases name) (auto simp add: plain_part_def kept_part_def)
  then show ?thesis using assms by (auto simp add: plain_part_def kept_part_def)
qed

lemma file_name_cases:
  "file_name default_file_path guess request response =
     path_name (parse_path (default_file_path request)) @
     (case response of
        None \<Rightarrow> []
      | Some r \<Rightarrow>
          if path_suffix (parse_path (default_file_path request)) = [] \<and>
             detect_extension guess r \<noteq> []
          then ''.'' @ detect_extension guess r else [])"
  by (simp add: file_name_def Let_def split: option.splits)

lemma detect_extension_no_slash:
  assumes "\<And>buf ext. guess buf = Some ext \<Longrightarrow> CHR ''/'' \<notin> set ext"
  shows "CHR ''/'' \<notin> set (detect_extension guess r)"
  using assms by (auto simp add: detect_extension_def split: option.splits)

lemma file_name_plain:
  assumes "path_name (parse_path (default_file_path request)) \<noteq> []"
    and "\<And>buf ext. guess buf = Some ext \<Longrightarrow> CHR ''/'' \<notin> set ext"
  shows "plain_part (file_name default_file_path guess request response)"
proof -
  have n: "plain_part (path_name (parse_path (default_file_path request)))"
    using assms(1) by (rule path_name_plain)
  show ?thesis
  proof (cases response)
    case None
    then show ?thesis using n by (simp add: file_name_cases)
  next
    case (Some r)
    have "CHR ''/'' \<notin> set (detect_extension guess r)"
      using assms(2) by (rule detect_extension_no_slash)
    then show ?thesis
      using n Some plain_part_with_extension[OF n, of "detect_extension guess r"]
      by (simp add: file_name_cases)
  qed
qed

text \<open>
  C5.  When the item has its territory and its date as strings that are single path
  parts, and the path of the base class has a name, the storage path is the territory,
  the date and the file name joined by \<^verbatim>\<open>/\<close>; the file name is the name of the
  base class path (a function of the request alone), followed by a dot and the
  extension found in the content when there is a response, the base name has no suffix
  and an extension is found.  For territory \<^verbatim>\<open>X\<close>, date \<^verbatim>\<open>2024-01-05\<close>, base name
  \<^verbatim>\<open>abc123\<close> and a PDF body the path is \<^verbatim>\<open>X/2024-01-05/abc123.pdf\<close>.
\<close>

theorem file_path_is_territory_date_name:
  assumes "territory_id item = Some t" and "date item = Some (DateStr d)"
    and "plain_part t" and "plain_part d"
    and "path_name (parse_path (default_file_path request)) \<noteq> []"
    and "\<And>buf ext. guess buf = Some ext \<Longrightarrow> CHR ''/'' \<notin> set ext"
  shows "file_path default_file_path guess request response item =
           Inr (t @ ''/'' @ d @ ''/'' @ file_name default_file_path guess request response) \<and>
         file_name default_file_path guess request response =
           path_name (parse_path (default_file_path request)) @
           (case response of
              None \<Rightarrow> []
            | Some r \<Rightarrow>
                if path_suffix (parse_path (default_file_path request)) = [] \<and>
                   detect_extension guess r \<noteq> []
                then ''.'' @ detect_extension guess r else [])"
proof -
  have f: "plain_part (file_name default_file_path guess request response)"
    using assms(5,6) by (rule file_name_plain)
  have "file_path default_file_path guess request response item =
           Inr (t @ ''/'' @ d @ ''/'' @ file_name default_file_path guess request response)"
    using assms(1,2)
    by (simp add: file_path_def Let_def Path_three_plain[OF assms(3,4) f] path_str_three)
  then show ?thesis using file_name_cases[of default_file_path guess request response] by simp
qed

lemma sample_parse_a: "parse_path ''full/abc123'' = \<lparr>root = [], parts = [''full'', ''abc123'']\<rparr>"
  by (simp add: parse_path_def splitroot_def kept_part_def)

lemma sample_parse_b: "parse_path ''full/def456.pdf'' = \<lparr>root = [], parts = [''full'', ''def456.pdf'']\<rparr>"
  by (simp add: parse_path_def splitroot_def kept_part_def)

lemma sample_suffix_a: "path_suffix (parse_path ''full/abc123'') = []"
  by (simp add: sample_parse_a path_suffix_def path_name_def)

lemma sample_suffix_b: "path_suffix (parse_path ''full/def456.pdf'') = ''.pdf''"
  by (simp add: sample_parse_b path_suffix_def path_name_def)

lemma sample_detect: "detect_extension pdf_signature_guess pdf_response = ''pdf''"
  "detect_extension pdf_signature_guess unknown_response = []"
  by (simp_all add: detect_extension_def pdf_signature_guess_def pdf_response_def unknown_response_def)

lemma pdf_guess_no_slash: "pdf_signature_guess buf = Some ext \<Longrightarrow> CHR ''/'' \<notin> set ext"
  by (auto simp add: pdf_signature_guess_def split: if_splits)

lemma sample_plain: "plain_part ''X''" "plain_part ''2024-01-05''"
  by (simp_all add: plain_part_def kept_part_def)

lemma sample_default_a: "sample_default_path request_a = ''full/abc123''"
  by (simp add: sample_default_path_def request_a_def)

lemma sample_default_b: "sample_default_path request_b = ''full/def456.pdf''"
  by (simp add: sample_default_path_def request_b_def)

theorem file_path_witness:
  "file_path sample_default_path pdf_signature_guess request_a (Some pdf_response) sample_item =
     Inr ''X/2024-01-05/abc123.pdf'' \<and>
   file_path sample_default_path pdf_signature_guess request_a None sample_item =
     Inr ''X/2024-01-05/abc123'' \<and>
   file_path sample_default_path pdf_signature_guess request_b (Some pdf_response) sample_item =
     Inr ''X/2024-01-05/def456.pdf''"
proof -
  have t: "territory_id sample_item = Some ''X''"
    and d: "date sample_item = Some (DateStr ''2024-01-05'')"
    by (simp_all add: sample_item_def)
  have na: "path_name (parse_path (sample_default_path request_a)) \<noteq> []"
    by (simp add: sample_default_a sample_parse_a path_name_def)
  have nb: "path_name (parse_path (sample_default_path request_b)) \<noteq> []"
    by (simp add: sample_default_b sample_parse_b path_name_def)
  have a: "file_path sample_default_path pdf_signature_guess request_a response sample_item =
           Inr (''X'' @ ''/'' @ ''2024-01-05'' @ ''/'' @
                file_name sample_default_path pdf_signature_guess request_a response)"
    for response
    using file_path_is_territory_date_name
      [of sample_item "''X''" "''2024-01-05''" sample_default_path request_a
          pdf_signature_guess response]
      t d sample_plain na pdf_guess_no_slash
    by blast
  have b: "file_path sample_default_path pdf_signature_guess request_b response sample_item =
           Inr (''X'' @ ''/'' @ ''2024-01-05'' @ ''/'' @
                file_name sample_default_path pdf_signature_guess request_b response)"
    for response
    using file_path_is_territory_date_name
      [of sample_item "''X''" "''2024-01-05''" sample_default_path request_b
          pdf_signature_guess response]
      t d sample_plain nb pdf_guess_no_slash
    by blast
  have "file_path sample_default_path pdf_signature_guess request_a (Some pdf_response)
          sample_item = Inr ''X/2024-01-05/abc123.pdf''"
    using a[of "Some pdf_response"]
    by (simp add: file_name_cases sample_default_a sample_parse_a sample_suffix_a[unfolded sample_parse_a] sample_detect
        path_name_def)
  moreover have "file_path sample_default_path pdf_signature_guess request_a None
          sample_item = Inr ''X/2024-01-05/abc123''"
    using a[of None]
    by (simp add: file_name_cases sample_default_a sample_parse_a path_name_def)
  moreover have "file_path sample_default_path pdf_signature_guess request_b
          (Some pdf_response) sample_item = Inr ''X/2024-01-05/def456.pdf''"
    using b[of "Some pdf_response"]
    by (simp add: file_name_cases sample_default_b sample_parse_b sample_suffix_b[unfolded sample_parse_b] path_name_def)
  ultimately show ?thesis by blast
qed

lemma file_path_plain:
  assumes "territory_id item = Some t" and "date item = Some (DateStr d)"
    and "plain_part t" and "plain_part d"
    and "plain_part (file_name default_file_path guess request response)"
  shows "file_path default_file_path guess request response item =
           Inr (t @ ''/'' @ d @ ''/'' @ file_name default_file_path guess request response)"
  using assms(1,2)
  by (simp add: file_path_def Let_def Path_three_plain[OF assms(3,4,5)] path_str_three)

text \<open>
  C6.  Take an item with its territory and date as single path parts, and a request
  whose base class path has a name without a suffix (the URL gives no extension).  The
  path the downloaded file is stored under depends on the first 261 bytes of the body
  only: when the signature table finds an extension there, it is territory, date and the
  base name followed by a dot and that extension, and when it finds none it is
  territory, date and the base name alone.  With a table that knows PDF, a body starting
  with \<^verbatim>\<open>%PDF\<close> is stored under \<^verbatim>\<open>X/2024-01-05/abc123.pdf\<close> and an unknown one
  under \<^verbatim>\<open>X/2024-01-05/abc123\<close>.
\<close>

theorem extension_inferred_from_first_261_bytes:
  assumes "territory_id item = Some t" and "date item = Some (DateStr d)"
    and "plain_part t" and "plain_part d"
    and "path_name (parse_path (default_file_path request)) = name" and "name \<noteq> []"
    and "path_suffix (parse_path (default_file_path request)) = []"
  shows "(\<forall>ext. guess (take 261 (body r)) = Some ext \<and> ext \<noteq> [] \<and> CHR ''/'' \<notin> set ext \<longrightarrow>
           file_path default_file_path guess request (Some r) item =
             Inr (t @ ''/'' @ d @ ''/'' @ name @ ''.'' @ ext)) \<and>
         (guess (take 261 (body r)) = None \<or> guess (take 261 (body r)) = Some [] \<longrightarrow>
           file_path default_file_path guess request (Some r) item =
             Inr (t @ ''/'' @ d @ ''/'' @ name)) \<and>
         (\<forall>r'. take 261 (body r) = take 261 (body r') \<longrightarrow>
           file_path default_file_path guess request (Some r) item =
           file_path default_file_path guess request (Some r') item)"
proof (intro conjI allI impI)
  have n: "plain_part name"
    using path_name_plain[of "default_file_path request"] assms(5,6) by simp
  {
    fix ext
    assume g: "guess (take 261 (body r)) = Some ext \<and> ext \<noteq> [] \<and> CHR ''/'' \<notin> set ext"
    then have fn: "file_name default_file_path guess request (Some r) = name @ ''.'' @ ext"
      using assms(5,7) by (simp add: file_name_def detect_extension_def Let_def)
    have "plain_part (name @ ''.'' @ ext)"
      using plain_part_with_extension[OF n, of ext] g by simp
    then show "file_path default_file_path guess request (Some r) item =
        Inr (t @ ''/'' @ d @ ''/'' @ name @ ''.'' @ ext)"
      using file_path_plain[OF assms(1-4), of default_file_path guess request "Some r"]
      by (simp add: fn)
  }
  {
    assume g: "guess (take 261 (body r)) = None \<or> guess (take 261 (body r)) = Some []"
    then have fn: "file_name default_file_path guess request (Some r) = name"
      using assms(5,7) by (auto simp add: file_name_def detect_extension_def Let_def)
    show "file_path default_file_path guess request (Some r) item =
        Inr (t @ ''/'' @ d @ ''/'' @ name)"
      using file_path_plain[OF assms(1-4), of default_file_path guess request "Some r"] n
      by (simp add: fn)
  }
  {
    fix r' :: response
    assume "take 261 (body r) = take 261 (body r')"
    then have "detect_extension guess r = detect_extension guess r'"
      by (simp add: detect_extension_def)
    then have "file_name default_file_path guess request (Some r) =
        file_name default_file_path guess request (Some r')"
      by (simp add: file_name_cases)
    then show "file_path default_file_path guess request (Some r) item =
           file_path default_file_path guess request (Some r') item"
      by (simp add: file_path_def)
  }
qed

theorem extension_inferred_witness:
  "territory_id sample_item = Some ''X'' \<and> date sample_item = Some (DateStr ''2024-01-05'') \<and>
   plain_part ''X'' \<and> plain_part ''2024-01-05'' \<and>
   path_name (parse_path (sample_default_path request_a)) = ''abc123'' \<and>
   path_suffix (parse_path (sample_default_path request_a)) = [] \<and>
   pdf_signature_guess (take 261 (body pdf_response)) = Some ''pdf'' \<and>
   file_path sample_default_path pdf_signature_guess request_a (Some pdf_response) sample_item =
     Inr ''X/2024-01-05/abc123.pdf'' \<and>
   pdf_signature_guess (take 261 (body unknown_response)) = None \<and>
   file_path sample_default_path pdf_signature_guess request_a (Some unknown_response)
     sample_item = Inr ''X/2024-01-05/abc123''"
proof -
  have t: "territory_id sample_item = Some ''X''"
    and d: "date sample_item = Some (DateStr ''2024-01-05'')"
    by (simp_all add: sample_item_def)
  have s: "path_suffix (parse_path (sample_default_path request_a)) = []"
    by (simp add: sample_default_a sample_suffix_a)
  have g1: "pdf_signature_guess (take 261 (body pdf_response)) = Some ''pdf''"
    by (simp add: pdf_signature_guess_def pdf_response_def)
  have g2: "pdf_signature_guess (take 261 (body unknown_response)) = None"
    by (simp add: pdf_signature_guess_def unknown_response_def)
  have n: "path_name (parse_path (sample_default_path request_a)) = ''abc123''"
    by (simp add: sample_default_a sample_parse_a path_name_def)
  have ne: "''abc123'' \<noteq> []" by simp
  note inst = extension_inferred_from_first_261_bytes
    [where default_file_path = sample_default_path and request = request_a and
       guess = pdf_signature_guess, OF t d sample_plain n ne s]
  have "file_path sample_default_path pdf_signature_guess request_a (Some pdf_response)
      sample_item = Inr ''X/2024-01-05/abc123.pdf''"
    using inst[of pdf_response] g1 by simp
  moreover have "file_path sample_default_path pdf_signature_guess request_a
      (Some unknown_response) sample_item = Inr ''X/2024-01-05/abc123''"
    using inst[of unknown_response] g2 by simp
  ultimately show ?thesis using t d sample_plain n s g1 g2 by blast
qed

subsection \<open>The existence probe of the store\<close>

lemma pure_path_eq: "\<lparr>root = root p, parts = parts p\<rparr> = p"
  by simp

lemma Path_Nil: "Path [] = \<lparr>root = [], parts = []\<rparr>"
  by (simp add: Path_def)

lemma join_path_empty: "join_path \<lparr>root = [], parts = []\<rparr> b = b"
  by (simp add: join_path_def)

lemma foldl_join_plain:
  "\<forall>x \<in> set ps. plain_part x \<Longrightarrow>
   foldl join_path a (map parse_path ps) = \<lparr>root = root a, parts = parts a @ ps\<rparr>"
proof (induction ps arbitrary: a)
  case Nil
  show ?case by simp
next
  case (Cons x xs)
  have "join_path a (parse_path x) = \<lparr>root = root a, parts = parts a @ [x]\<rparr>"
    using Cons.prems by (simp add: join_path_def parse_path_plain)
  then show ?case using Cons.IH[of "\<lparr>root = root a, parts = parts a @ [x]\<rparr>"] Cons.prems by simp
qed

lemma get_filesystem_path_join_sep:
  assumes "ps \<noteq> []" and "\<forall>x \<in> set ps. plain_part x"
  shows "get_filesystem_path b (join_sep ps) =
     \<lparr>root = root (parse_path b), parts = parts (parse_path b) @ ps\<rparr>"
proof -
  have "\<forall>x \<in> set ps. CHR ''/'' \<notin> set x" using assms(2) by (simp add: plain_part_def)
  then have s: "split_sep CHR ''/'' (join_sep ps) = ps"
    using assms(1) by (simp add: split_sep_join_sep)
  show ?thesis
    using foldl_join_plain[OF assms(2), of "parse_path b"]
    by (simp add: get_filesystem_path_def Path_def s join_path_empty)
qed

lemma Path_two_relative:
  "root q = [] \<Longrightarrow> Path [p, q] = \<lparr>root = root p, parts = parts p @ parts q\<rparr>"
  by (simp add: Path_def join_path_def)

lemma path_parent_parts:
  "parts p \<noteq> [] \<Longrightarrow> path_parent p = \<lparr>root = root p, parts = butlast (parts p)\<rparr>"
  by (simp add: path_parent_def)

lemma resolved_path_is_found_file:
  assumes rel: "root P = []" and ne: "parts P \<noteq> []"
    and plainP: "\<forall>x \<in> set (parts P). plain_part x"
    and g: "parts g \<noteq> []" "\<forall>x \<in> set (parts g). plain_part x"
    and dir: "path_parent g = path_parent (Path [parse_path b, P])"
  shows "get_filesystem_path b (path_str (Path [path_parent P, parse_path (path_name g)])) = g"
proof -
  let ?B = "parse_path b"
  have n: "plain_part (path_name g)" using g by (simp add: path_name_def)
  have pp: "path_parent P = \<lparr>root = [], parts = butlast (parts P)\<rparr>"
    using rel ne by (simp add: path_parent_parts)
  have q: "Path [path_parent P, parse_path (path_name g)] =
      \<lparr>root = [], parts = butlast (parts P) @ [path_name g]\<rparr>"
    by (simp add: pp Path_two_relative parse_path_plain[OF n])
  have plain: "\<forall>x \<in> set (butlast (parts P) @ [path_name g]). plain_part x"
    using plainP n by (auto dest: in_set_butlastD)
  have str: "path_str (Path [path_parent P, parse_path (path_name g)]) =
      join_sep (butlast (parts P) @ [path_name g])"
    by (simp add: q path_str_def)
  have found: "get_filesystem_path b (path_str (Path [path_parent P, parse_path (path_name g)])) =
      \<lparr>root = root ?B, parts = parts ?B @ butlast (parts P) @ [path_name g]\<rparr>"
    using get_filesystem_path_join_sep[OF _ plain, of b] by (simp add: str)
  have "Path [?B, P] = \<lparr>root = root ?B, parts = parts ?B @ parts P\<rparr>"
    using rel by (rule Path_two_relative)
  then have "path_parent (Path [?B, P]) = \<lparr>root = root ?B, parts = parts ?B @ butlast (parts P)\<rparr>"
    using ne by (simp add: path_parent_def butlast_append)
  then have "g\<lparr>parts := butlast (parts g)\<rparr> = \<lparr>root = root ?B, parts = parts ?B @ butlast (parts P)\<rparr>"
    using dir g(1) by (simp add: path_parent_def)
  then have "root g = root ?B" "butlast (parts g) = parts ?B @ butlast (parts P)"
    by (cases g, simp)+
  moreover have "parts g = butlast (parts g) @ [path_name g]"
    using g(1) by (simp add: path_name_def)
  ultimately have "g = \<lparr>root = root ?B, parts = parts ?B @ butlast (parts P) @ [path_name g]\<rparr>"
    by (cases g) simp
  then show ?thesis using found by simp
qed


lemma walk_plain: "''..'' \<notin> set xs \<Longrightarrow> walk ok r cur xs = Some (cur @ xs)"
  by (induction xs arbitrary: cur) auto

lemma os_resolve_plain: "''..'' \<notin> set (parts p) \<Longrightarrow> os_resolve fs p = Some p"
  by (simp add: os_resolve_def walk_plain)

lemma map_of_distinct: "distinct (map fst fs) \<Longrightarrow> (k, v) \<in> set fs \<Longrightarrow> map_of fs k = Some v"
  by simp

lemma os_stat_file:
  "''..'' \<notin> set (parts p) \<Longrightarrow> map_of fs p = Some node \<Longrightarrow> os_stat fs p = Some (Regular node)"
  by (simp add: os_stat_def os_resolve_plain)

lemma os_stat_absent:
  "''..'' \<notin> set (parts p) \<Longrightarrow> map_of fs p = None \<Longrightarrow> \<not> is_dir fs p \<Longrightarrow> os_stat fs p = None"
  by (simp add: os_stat_def os_resolve_plain)

lemma re_fullmatch_star: "re_fullmatch [Star] s"
  by (induction s) simp_all

lemma re_fullmatch_lits:
  "re_fullmatch (map Lit name @ ts) s \<longleftrightarrow> (\<exists>r. s = name @ r \<and> re_fullmatch ts r)"
proof (induction name arbitrary: s)
  case Nil
  show ?case by simp
next
  case (Cons a name)
  show ?case by (cases s) (auto simp add: Cons.IH)
qed

lemma re_fullmatch_dot_star: "re_fullmatch [Lit c, Star] r \<longleftrightarrow> (\<exists>e. r = c # e)"
  by (cases r) (auto simp add: re_fullmatch_star)

lemma fnmatch_translate_literal:
  "literal_name name \<Longrightarrow> fnmatch_translate (name @ p) = map Lit name @ fnmatch_translate p"
  by (induction name) (auto simp add: literal_name_def)

lemma fnmatch_name_star:
  assumes "literal_name name"
  shows "fnmatch n (name @ ''.*'') \<longleftrightarrow> (\<exists>e. n = name @ ''.'' @ e)"
proof -
  have "fnmatch_translate (name @ ''.*'') = map Lit name @ [Lit CHR ''.'', Star]"
    using assms by (simp add: fnmatch_translate_literal)
  then show ?thesis
    by (auto simp add: fnmatch_def re_fullmatch_lits re_fullmatch_dot_star)
qed

lemma contains_literal:
  "CHR ''*'' \<notin> set name \<Longrightarrow> \<not> contains ''**'' (name @ ''.*'')"
  by (induction name) auto

lemma wf_filesystem_parts:
  "wf_filesystem fs \<Longrightarrow> g \<in> fst ` set fs \<Longrightarrow>
   parts g \<noteq> [] \<and> (\<forall>x \<in> set (parts g). plain_part x) \<and> ''..'' \<notin> set (parts g)"
  by (fastforce simp add: wf_filesystem_def list_all_iff stored_part_def)

lemma rev_remdups_rev_distinct: "distinct xs \<Longrightarrow> rev (remdups (rev xs)) = xs"
  by (simp add: distinct_remdups_id)

text \<open>In a directory that holds only files, the entries are the files that lie in it.\<close>

lemma below_iff:
  assumes "holds_only_files fs d" and "k \<in> fst ` set fs"
  shows "root k = root d \<and> strict_prefix (parts d) (parts k) \<longleftrightarrow>
         parts k \<noteq> [] \<and> path_parent k = d"
proof
  assume a: "root k = root d \<and> strict_prefix (parts d) (parts k)"
  then have len: "length (parts k) = Suc (length (parts d))"
    using assms by (auto simp add: holds_only_files_def list_all_iff)
  obtain zs where zs: "parts k = parts d @ zs"
    using a by (auto simp add: strict_prefix_def prefix_def)
  then have "length zs = 1" using len by simp
  then obtain z where "zs = [z]" by (cases zs) auto
  then have "parts k = parts d @ [z]" using zs by simp
  then show "parts k \<noteq> [] \<and> path_parent k = d"
    using a by (cases d, cases k) (simp add: path_parent_def)
next
  assume a: "parts k \<noteq> [] \<and> path_parent k = d"
  then have "root d = root k" "parts d = butlast (parts k)"
    by (auto simp add: path_parent_def)
  moreover have "strict_prefix (butlast (parts k)) (parts k)"
    using a by (metis append_butlast_last_id strict_prefixI')
  ultimately show "root k = root d \<and> strict_prefix (parts d) (parts k)" by simp
qed

lemma nth_name:
  "parts k \<noteq> [] \<Longrightarrow> path_parent k = d \<Longrightarrow> parts k ! length (parts d) = path_name k"
  by (auto simp add: path_parent_def path_name_def last_conv_nth)

lemma child_is_key:
  "parts k \<noteq> [] \<Longrightarrow> path_parent k = d \<Longrightarrow> d\<lparr>parts := parts d @ [path_name k]\<rparr> = k"
  by (cases k) (auto simp add: path_parent_def path_name_def)

lemma in_dir_names_inj:
  assumes "parts k \<noteq> []" "path_parent k = d" "parts k' \<noteq> []" "path_parent k' = d"
    and "path_name k = path_name k'"
  shows "k = k'"
  by (metis child_is_key assms)

lemma scandir_flat:
  assumes "holds_only_files fs d" and "distinct (map fst fs)"
  shows "scandir fs d =
     map path_name (filter (\<lambda>k. parts k \<noteq> [] \<and> path_parent k = d) (map fst fs))"
proof -
  let ?in = "\<lambda>k. parts k \<noteq> [] \<and> path_parent k = d"
  have f: "filter (\<lambda>k. root k = root d \<and> strict_prefix (parts d) (parts k)) (map fst fs) =
      filter ?in (map fst fs)"
    by (rule filter_cong) (auto simp add: below_iff[OF assms(1)])
  have m: "map (\<lambda>k. parts k ! length (parts d)) (filter ?in (map fst fs)) =
      map path_name (filter ?in (map fst fs))"
    by (rule map_cong) (auto simp add: nth_name)
  have "inj_on path_name (set (filter ?in (map fst fs)))"
    by (rule inj_onI) (auto intro: in_dir_names_inj)
  then have "distinct (map path_name (filter ?in (map fst fs)))"
    using assms(2) by (simp add: distinct_map)
  then show ?thesis
    by (simp add: scandir_def f m rev_remdups_rev_distinct)
qed

lemma glob_flat:
  assumes "holds_only_files fs d" and "distinct (map fst fs)" and "''..'' \<notin> set (parts d)"
    and "\<not> contains ''**'' pat"
  shows "glob fs d pat =
     Inr (filter (\<lambda>k. parts k \<noteq> [] \<and> path_parent k = d \<and> fnmatch (path_name k) pat)
            (map fst fs))"
proof -
  let ?in = "\<lambda>k. parts k \<noteq> [] \<and> path_parent k = d"
  have "map (\<lambda>n. d\<lparr>parts := parts d @ [n]\<rparr>)
          (filter (\<lambda>n. fnmatch n pat) (map path_name (filter ?in (map fst fs)))) =
        filter (\<lambda>k. fnmatch (path_name k) pat) (filter ?in (map fst fs))"
    by (induction fs) (auto simp add: child_is_key)
  then show ?thesis
    using assms(3,4) by (simp add: glob_def os_resolve_plain scandir_flat[OF assms(1,2)])
qed

lemma stat_at_key:
  assumes "wf_filesystem fs" and "(g, node) \<in> set fs" and "get_filesystem_path basedir s = g"
  shows "FSFilesStore_stat_file md5sum fs basedir s =
     Inr (Some \<lparr>st_last_modified = mtime node, st_checksum = md5sum (content node)\<rparr>)"
proof -
  have "g \<in> fst ` set fs" using assms(2) by force
  then have "''..'' \<notin> set (parts g)" using wf_filesystem_parts[OF assms(1)] by blast
  moreover have "map_of fs g = Some node"
    using assms(1,2) by (simp add: wf_filesystem_def)
  ultimately show ?thesis
    by (simp add: FSFilesStore_stat_file_def assms(3) os_stat_file)
qed

lemma probe_dir:
  assumes "root P = []" and "parts P \<noteq> []"
  shows "path_parent (Path [B, P]) = \<lparr>root = root B, parts = parts B @ butlast (parts P)\<rparr>"
  using assms by (simp add: Path_two_relative path_parent_def butlast_append)

lemma stat_file_through_glob:
  assumes sfx: "path_suffix (parse_path pth) = []"
    and rel: "root (parse_path pth) = []" and ne: "parts (parse_path pth) \<noteq> []"
    and nd: "''..'' \<notin> set (parts (parse_path basedir))" "''..'' \<notin> set (parts (parse_path pth))"
    and lit: "literal_name (path_name (parse_path pth))"
    and wf: "wf_filesystem fs"
    and flat: "holds_only_files fs (path_parent (Path [parse_path basedir, parse_path pth]))"
    and files: "filter (\<lambda>k. parts k \<noteq> [] \<and>
                   path_parent k = path_parent (Path [parse_path basedir, parse_path pth]) \<and>
                   fnmatch (path_name k) (path_name (parse_path pth) @ ''.*''))
                 (map fst fs) = g # gs"
  shows "\<exists>node e. (g, node) \<in> set fs \<and>
           path_parent g = path_parent (Path [parse_path basedir, parse_path pth]) \<and>
           path_name g = path_name (parse_path pth) @ ''.'' @ e \<and>
           find_file fs basedir (parse_path pth) =
             Inr (Path [path_parent (parse_path pth), parse_path (path_name g)]) \<and>
           stat_file md5sum fs basedir pth =
             Inr (Some \<lparr>st_last_modified = mtime node, st_checksum = md5sum (content node)\<rparr>)"
proof -
  let ?P = "parse_path pth"
  let ?B = "parse_path basedir"
  let ?dir = "path_parent (Path [?B, ?P])"
  let ?pat = "path_name ?P @ ''.*''"
  have dir: "?dir = \<lparr>root = root ?B, parts = parts ?B @ butlast (parts ?P)\<rparr>"
    using rel ne by (rule probe_dir)
  have nd_dir: "''..'' \<notin> set (parts ?dir)"
    using nd by (auto simp add: dir dest: in_set_butlastD)
  have ns: "\<not> contains ''**'' ?pat"
    using lit by (simp add: contains_literal literal_name_def)
  have d: "distinct (map fst fs)" using wf by (simp add: wf_filesystem_def)
  have gl: "glob fs ?dir ?pat = Inr (g # gs)"
    using glob_flat[OF flat d nd_dir ns] files by simp
  have "g \<in> set (filter (\<lambda>k. parts k \<noteq> [] \<and> path_parent k = ?dir \<and>
                   fnmatch (path_name k) ?pat) (map fst fs))"
    using files by simp
  then have g: "g \<in> fst ` set fs" "parts g \<noteq> []" "path_parent g = ?dir"
      "fnmatch (path_name g) ?pat"
    by auto
  obtain e where e: "path_name g = path_name ?P @ ''.'' @ e"
    using g(4) fnmatch_name_star[OF lit] by blast
  obtain node where node: "(g, node) \<in> set fs" using g(1) by auto
  have pg: "\<forall>x \<in> set (parts g). plain_part x"
    using wf_filesystem_parts[OF wf g(1)] by blast
  have pP: "\<forall>x \<in> set (parts ?P). plain_part x"
    using parts_parse_path_plain by blast
  have ff: "find_file fs basedir ?P = Inr (Path [path_parent ?P, parse_path (path_name g)])"
    by (simp add: find_file_def Let_def gl)
  have loc: "get_filesystem_path basedir
      (path_str (Path [path_parent ?P, parse_path (path_name g)])) = g"
    using resolved_path_is_found_file[OF rel ne pP g(2) pg g(3)] by simp
  have "stat_file md5sum fs basedir pth =
      Inr (Some \<lparr>st_last_modified = mtime node, st_checksum = md5sum (content node)\<rparr>)"
    using sfx by (simp add: stat_file_def Let_def ff stat_at_key[OF wf node loc])
  then show ?thesis using node g(3) e ff by blast
qed

text \<open>
  C7.  When the path asked for has a suffix, \<^verbatim>\<open>stat_file\<close> is the base class
  \<^verbatim>\<open>stat_file\<close> on that very path: it gives the modification time and checksum of the
  file there, and nothing when nothing is there.  When the path has no suffix and its
  directory under the base directory holds a file named after it with a dot and any
  extension, \<^verbatim>\<open>_find_file\<close> resolves to a file \<open>g\<close> of that directory whose name is
  the name asked for, a dot and an extension, and \<^verbatim>\<open>stat_file\<close> returns the
  modification time and checksum of \<open>g\<close>: the file is found, which is what makes the
  base class report the reference as \<^verbatim>\<open>uptodate\<close>.  When one file only has such a
  name, \<open>g\<close> is that file.  This is for a relative path whose name holds none of
  \<^verbatim>\<open>*\<close>, \<^verbatim>\<open>?\<close> and \<^verbatim>\<open>[\<close>, with no \<^verbatim>\<open>..\<close> in it or in the base directory, in
  a store of parsed paths whose directory holds files only.
\<close>

theorem stat_file_resolves_to_file_with_any_extension:
  "(path_suffix (parse_path pth) \<noteq> [] \<longrightarrow>
      stat_file md5sum fs basedir pth = FSFilesStore_stat_file md5sum fs basedir pth) \<and>
   (path_suffix (parse_path pth) \<noteq> [] \<and> wf_filesystem fs \<and>
    (get_filesystem_path basedir pth, node1) \<in> set fs \<longrightarrow>
      stat_file md5sum fs basedir pth =
        Inr (Some \<lparr>st_last_modified = mtime node1, st_checksum = md5sum (content node1)\<rparr>)) \<and>
   (path_suffix (parse_path pth) \<noteq> [] \<and>
    ''..'' \<notin> set (parts (get_filesystem_path basedir pth)) \<and>
    get_filesystem_path basedir pth \<notin> fst ` set fs \<and>
    \<not> is_dir fs (get_filesystem_path basedir pth) \<longrightarrow>
      stat_file md5sum fs basedir pth = Inr None) \<and>
   (path_suffix (parse_path pth) = [] \<and> root (parse_path pth) = [] \<and>
    parts (parse_path pth) \<noteq> [] \<and>
    ''..'' \<notin> set (parts (parse_path basedir)) \<and> ''..'' \<notin> set (parts (parse_path pth)) \<and>
    literal_name (path_name (parse_path pth)) \<and>
    wf_filesystem fs \<and>
    holds_only_files fs (path_parent (Path [parse_path basedir, parse_path pth])) \<and>
    (f, node0) \<in> set fs \<and> parts f \<noteq> [] \<and>
    path_parent f = path_parent (Path [parse_path basedir, parse_path pth]) \<and>
    path_name f = path_name (parse_path pth) @ ''.'' @ ext \<longrightarrow>
      (\<exists>g node e.
         (g, node) \<in> set fs \<and>
         path_parent g = path_parent (Path [parse_path basedir, parse_path pth]) \<and>
         path_name g = path_name (parse_path pth) @ ''.'' @ e \<and>
         find_file fs basedir (parse_path pth) =
           Inr (Path [path_parent (parse_path pth), parse_path (path_name g)]) \<and>
         stat_file md5sum fs basedir pth =
           Inr (Some \<lparr>st_last_modified = mtime node, st_checksum = md5sum (content node)\<rparr>) \<and>
         ((\<forall>k e'. k \<in> fst ` set fs \<and> parts k \<noteq> [] \<and>
                  path_parent k = path_parent (Path [parse_path basedir, parse_path pth]) \<and>
                  path_name k = path_name (parse_path pth) @ ''.'' @ e' \<longrightarrow> k = f) \<longrightarrow>
            g = f \<and> node = node0)))"
proof (intro conjI impI)
  assume "path_suffix (parse_path pth) \<noteq> []"
  then show "stat_file md5sum fs basedir pth = FSFilesStore_stat_file md5sum fs basedir pth"
    by (simp add: stat_file_def)
next
  assume a: "path_suffix (parse_path pth) \<noteq> [] \<and> wf_filesystem fs \<and>
    (get_filesystem_path basedir pth, node1) \<in> set fs"
  then have "FSFilesStore_stat_file md5sum fs basedir pth =
      Inr (Some \<lparr>st_last_modified = mtime node1, st_checksum = md5sum (content node1)\<rparr>)"
    using stat_at_key[of fs "get_filesystem_path basedir pth" node1 basedir pth md5sum] by simp
  then show "stat_file md5sum fs basedir pth =
        Inr (Some \<lparr>st_last_modified = mtime node1, st_checksum = md5sum (content node1)\<rparr>)"
    using a by (simp add: stat_file_def)
next
  assume a: "path_suffix (parse_path pth) \<noteq> [] \<and>
    ''..'' \<notin> set (parts (get_filesystem_path basedir pth)) \<and>
    get_filesystem_path basedir pth \<notin> fst ` set fs \<and>
    \<not> is_dir fs (get_filesystem_path basedir pth)"
  then have "map_of fs (get_filesystem_path basedir pth) = None"
    by (simp add: map_of_eq_None_iff)
  then have "os_stat fs (get_filesystem_path basedir pth) = None"
    using a by (simp add: os_stat_absent)
  then show "stat_file md5sum fs basedir pth = Inr None"
    using a by (simp add: stat_file_def FSFilesStore_stat_file_def)
next
  let ?P = "parse_path pth"
  let ?dir = "path_parent (Path [parse_path basedir, ?P])"
  let ?pat = "path_name ?P @ ''.*''"
  let ?found = "filter (\<lambda>k. parts k \<noteq> [] \<and> path_parent k = ?dir \<and>
                   fnmatch (path_name k) ?pat) (map fst fs)"
  assume a: "path_suffix ?P = [] \<and> root ?P = [] \<and> parts ?P \<noteq> [] \<and>
    ''..'' \<notin> set (parts (parse_path basedir)) \<and> ''..'' \<notin> set (parts ?P) \<and>
    literal_name (path_name ?P) \<and> wf_filesystem fs \<and> holds_only_files fs ?dir \<and>
    (f, node0) \<in> set fs \<and> parts f \<noteq> [] \<and> path_parent f = ?dir \<and>
    path_name f = path_name ?P @ ''.'' @ ext"
  have "fnmatch (path_name f) ?pat"
    using a fnmatch_name_star[of "path_name ?P" "path_name f"] by blast
  then have "f \<in> set ?found" using a by force
  then obtain g gs where files: "?found = g # gs"
    by (cases ?found) auto
  obtain node e where r: "(g, node) \<in> set fs" "path_parent g = ?dir"
      "path_name g = path_name ?P @ ''.'' @ e"
      "find_file fs basedir ?P = Inr (Path [path_parent ?P, parse_path (path_name g)])"
      "stat_file md5sum fs basedir pth =
         Inr (Some \<lparr>st_last_modified = mtime node, st_checksum = md5sum (content node)\<rparr>)"
    using stat_file_through_glob[of pth basedir fs g gs md5sum] a files by blast
  have gk: "g \<in> fst ` set fs" "parts g \<noteq> []"
    using r(1) wf_filesystem_parts[of fs g] a by force+
  have d: "distinct (map fst fs)" using a by (simp add: wf_filesystem_def)
  have u: "g = f \<and> node = node0"
    if "\<forall>k e'. k \<in> fst ` set fs \<and> parts k \<noteq> [] \<and> path_parent k = ?dir \<and>
                path_name k = path_name ?P @ ''.'' @ e' \<longrightarrow> k = f"
  proof -
    have "g = f" using that gk r(2,3) by blast
    moreover have "map_of fs g = Some node" "map_of fs f = Some node0"
      using d r(1) a by simp_all
    ultimately show ?thesis by simp
  qed
  show "\<exists>g node e.
         (g, node) \<in> set fs \<and> path_parent g = ?dir \<and>
         path_name g = path_name ?P @ ''.'' @ e \<and>
         find_file fs basedir ?P = Inr (Path [path_parent ?P, parse_path (path_name g)]) \<and>
         stat_file md5sum fs basedir pth =
           Inr (Some \<lparr>st_last_modified = mtime node, st_checksum = md5sum (content node)\<rparr>) \<and>
         ((\<forall>k e'. k \<in> fst ` set fs \<and> parts k \<noteq> [] \<and> path_parent k = ?dir \<and>
                  path_name k = path_name ?P @ ''.'' @ e' \<longrightarrow> k = f) \<longrightarrow>
            g = f \<and> node = node0)"
    using r u by blast
qed

lemma sample_parse_bare:
  "parse_path ''X/2024-01-05/abc123'' = \<lparr>root = [], parts = [''X'', ''2024-01-05'', ''abc123'']\<rparr>"
  by (simp add: parse_path_def splitroot_def kept_part_def)

lemma sample_parse_data: "parse_path ''/data'' = \<lparr>root = ''/'', parts = [''data'']\<rparr>"
  by (simp add: parse_path_def splitroot_def kept_part_def)

lemma sample_dir:
  "path_parent (Path [parse_path ''/data'', parse_path ''X/2024-01-05/abc123'']) =
     \<lparr>root = ''/'', parts = [''data'', ''X'', ''2024-01-05'']\<rparr>"
  by (simp add: sample_parse_bare sample_parse_data Path_def join_path_def path_parent_def)

lemma sample_wf: "wf_filesystem sample_fs"
  by (simp add: wf_filesystem_def sample_fs_def stored_pdf_def stored_part_def plain_part_def
      kept_part_def)

lemma sample_flat:
  "holds_only_files sample_fs \<lparr>root = ''/'', parts = [''data'', ''X'', ''2024-01-05'']\<rparr>"
  by (simp add: holds_only_files_def sample_fs_def stored_pdf_def)

lemma sample_target:
  "get_filesystem_path ''/data'' ''X/2024-01-05/abc123.pdf'' = stored_pdf"
  by (simp add: get_filesystem_path_def Path_def join_path_def parse_path_def splitroot_def
      kept_part_def stored_pdf_def)

theorem stat_file_witness:
  "stat_file sample_md5 sample_fs ''/data'' ''X/2024-01-05/abc123'' =
     Inr (Some \<lparr>st_last_modified = 100, st_checksum = ''md5 of %PDF-1.4 sample''\<rparr>) \<and>
   find_file sample_fs ''/data'' (parse_path ''X/2024-01-05/abc123'') =
     Inr \<lparr>root = [], parts = [''X'', ''2024-01-05'', ''abc123.pdf'']\<rparr> \<and>
   stat_file sample_md5 sample_fs ''/data'' ''X/2024-01-05/abc123.pdf'' =
     Inr (Some \<lparr>st_last_modified = 100, st_checksum = ''md5 of %PDF-1.4 sample''\<rparr>) \<and>
   stat_file sample_md5 sample_fs ''/data'' ''X/2024-01-05/def456.pdf'' = Inr None"
proof -
  let ?P = "parse_path ''X/2024-01-05/abc123''"
  let ?n = "\<lparr>mtime = 100, content = ''%PDF-1.4 sample''\<rparr>"
  note inst = stat_file_resolves_to_file_with_any_extension
    [of "''X/2024-01-05/abc123''" sample_md5 sample_fs "''/data''" _ stored_pdf ?n "''pdf''"]
  have h: "path_suffix ?P = [] \<and> root ?P = [] \<and> parts ?P \<noteq> [] \<and>
      ''..'' \<notin> set (parts (parse_path ''/data'')) \<and> ''..'' \<notin> set (parts ?P) \<and>
      literal_name (path_name ?P) \<and> wf_filesystem sample_fs \<and>
      holds_only_files sample_fs (path_parent (Path [parse_path ''/data'', ?P])) \<and>
      (stored_pdf, ?n) \<in> set sample_fs \<and>
      parts stored_pdf \<noteq> [] \<and>
      path_parent stored_pdf = path_parent (Path [parse_path ''/data'', ?P]) \<and>
      path_name stored_pdf = path_name ?P @ ''.'' @ ''pdf''"
    by (simp add: sample_dir sample_wf sample_flat)
       (simp add: sample_parse_bare sample_parse_data path_suffix_def path_name_def
          path_parent_def literal_name_def sample_fs_def stored_pdf_def)
  obtain g node where r: "(g, node) \<in> set sample_fs"
      "find_file sample_fs ''/data'' ?P = Inr (Path [path_parent ?P, parse_path (path_name g)])"
      "stat_file sample_md5 sample_fs ''/data'' ''X/2024-01-05/abc123'' =
         Inr (Some \<lparr>st_last_modified = mtime node, st_checksum = sample_md5 (content node)\<rparr>)"
    using inst h by blast
  have g: "g = stored_pdf" "node = ?n"
    using r(1) by (simp_all add: sample_fs_def)
  have 1: "stat_file sample_md5 sample_fs ''/data'' ''X/2024-01-05/abc123'' =
     Inr (Some \<lparr>st_last_modified = 100, st_checksum = ''md5 of %PDF-1.4 sample''\<rparr>)"
    using r(3) by (simp add: g sample_md5_def)
  have 2: "find_file sample_fs ''/data'' ?P =
     Inr \<lparr>root = [], parts = [''X'', ''2024-01-05'', ''abc123.pdf'']\<rparr>"
    using r(2)
    by (simp add: g stored_pdf_def path_name_def sample_parse_bare path_parent_def Path_def
        join_path_def parse_path_def splitroot_def kept_part_def)
  have sfx: "path_suffix (parse_path ''X/2024-01-05/abc123.pdf'') \<noteq> []"
    "path_suffix (parse_path ''X/2024-01-05/def456.pdf'') \<noteq> []"
    by (simp_all add: parse_path_def splitroot_def kept_part_def path_suffix_def path_name_def)
  have in_fs: "(get_filesystem_path ''/data'' ''X/2024-01-05/abc123.pdf'', ?n) \<in> set sample_fs"
    by (simp add: sample_target sample_fs_def)
  have "stat_file sample_md5 sample_fs ''/data'' ''X/2024-01-05/abc123.pdf'' =
     Inr (Some \<lparr>st_last_modified = mtime ?n, st_checksum = sample_md5 (content ?n)\<rparr>)"
    using stat_file_resolves_to_file_with_any_extension
      [of "''X/2024-01-05/abc123.pdf''" sample_md5 sample_fs "''/data''" ?n]
      sfx(1) sample_wf in_fs
    by blast
  then have 3: "stat_file sample_md5 sample_fs ''/data'' ''X/2024-01-05/abc123.pdf'' =
     Inr (Some \<lparr>st_last_modified = 100, st_checksum = ''md5 of %PDF-1.4 sample''\<rparr>)"
    by (simp add: sample_md5_def)
  have other: "get_filesystem_path ''/data'' ''X/2024-01-05/def456.pdf'' =
      \<lparr>root = ''/'', parts = [''data'', ''X'', ''2024-01-05'', ''def456.pdf'']\<rparr>"
    by (simp add: get_filesystem_path_def Path_def join_path_def parse_path_def splitroot_def
      kept_part_def)
  have absent: "''..'' \<notin> set (parts (get_filesystem_path ''/data'' ''X/2024-01-05/def456.pdf'')) \<and>
      get_filesystem_path ''/data'' ''X/2024-01-05/def456.pdf'' \<notin> fst ` set sample_fs \<and>
      \<not> is_dir sample_fs (get_filesystem_path ''/data'' ''X/2024-01-05/def456.pdf'')"
    by (simp add: other sample_fs_def stored_pdf_def is_dir_def)
  have 4: "stat_file sample_md5 sample_fs ''/data'' ''X/2024-01-05/def456.pdf'' = Inr None"
    using stat_file_resolves_to_file_with_any_extension
      [of "''X/2024-01-05/def456.pdf''" sample_md5 sample_fs "''/data''"]
      sfx(2) absent
    by blast
  show ?thesis using 1 2 3 4 by blast
qed

subsection \<open>Two runs of the files pipeline\<close>

subsubsection \<open>Paths of a request\<close>

lemma stored_part_plain: "stored_part x \<Longrightarrow> plain_part x"
  by (simp add: stored_part_def)









subsubsection \<open>A store with the layout of the pipeline\<close>








lemma map_of_write_file: "map_of (write_file fs p n) = (map_of fs)(p \<mapsto> n)"
  by (induction fs p n rule: write_file.induct) auto






subsubsection \<open>What the store finds\<close>









subsubsection \<open>One request\<close>







subsubsection \<open>The requests of an item\<close>





subsubsection \<open>The downloads of an item\<close>





subsubsection \<open>One run\<close>









subsubsection \<open>Whether a run returns\<close>





subsection \<open>The two runs on the sample item\<close>














end
